theory Spec2Isabelle
  imports Main "HOL-Library.Word" "HOL-Library.AList"
begin

unbundle bit_operations_syntax

section \<open>Data model\<close>

type_synonym u32 = "32 word"
type_synonym u64 = "64 word"

text \<open>The null byte of a C character array.\<close>

abbreviation NUL :: char where
  "NUL \<equiv> CHR 0x00"

text \<open>\<^verbatim>\<open>struct cpu_state\<close> of \<^verbatim>\<open>cpu_hotspot.c\<close>: last pid and timestamp of one CPU.\<close>

record cpu_state =
  pid :: u32
  ts :: u64

text \<open>
  \<^verbatim>\<open>struct pid_stat\<close>: \<^verbatim>\<open>comm\<close> is a 16-byte and \<^verbatim>\<open>cgroup\<close> a 64-byte character
  array, kept as the list of their bytes.
\<close>

record pid_stat =
  cpu_time_ns :: u64
  comm :: "char list"
  cgroup :: "char list"

text \<open>\<^verbatim>\<open>struct fault_stat\<close> of \<^verbatim>\<open>memory_faults.c\<close>.\<close>

record fault_stat =
  faults :: u64
  cgroup :: "char list"

subsection \<open>The kernel objects the programs read\<close>

text \<open>
  What a \<^verbatim>\<open>const char *\<close> into kernel memory leads to when it is not NULL: memory
  that cannot be read, or the bytes of a string up to its terminator.
\<close>

datatype kstr = Fault | CStr string

text \<open>
  The chain \<^verbatim>\<open>task->cgroups->dfl_cgrp->kn\<close> with \<^verbatim>\<open>kn->name\<close> and \<^verbatim>\<open>kn->parent\<close>.
  Every pointer may be NULL (\<open>None\<close>); a \<^verbatim>\<open>BPF_CORE_READ\<close> that faults yields NULL
  as well.
\<close>

datatype kernfs_node = Kernfs_node (name: "kstr option") (parent: "kernfs_node option")

record cgroup =
  kn :: "kernfs_node option"

record css_set =
  dfl_cgrp :: "cgroup option"

record task_struct =
  cgroups :: "css_set option"

text \<open>
  The values the BPF helpers return at one event: \<^verbatim>\<open>bpf_ktime_get_ns()\<close>,
  \<^verbatim>\<open>bpf_get_current_task_btf()\<close>, the name \<^verbatim>\<open>bpf_get_current_comm\<close> copies (absent when
  there is no current task), \<^verbatim>\<open>bpf_get_current_pid_tgid()\<close>, and the CPU the handler
  runs on.
\<close>

record kernel =
  ktime_get_ns :: u64
  current_task :: "task_struct option"
  current_comm :: "string option"
  current_pid_tgid :: u64
  smp_processor_id :: nat

text \<open>\<^verbatim>\<open>struct trace_event_raw_sched_switch\<close>: the two fields the handler reads.\<close>

record trace_event_raw_sched_switch =
  prev_pid :: u32
  next_pid :: u32

subsection \<open>BPF maps\<close>

text \<open>
  A \<^verbatim>\<open>BPF_MAP_TYPE_HASH\<close> map: its \<^verbatim>\<open>max_entries\<close> attribute and its elements, one pair
  per key. \<^verbatim>\<open>bpf_map_lookup_elem\<close> returns a pointer to the stored value or NULL.
\<close>

record ('k, 'v) bpf_hash =
  max_entries :: nat
  elems :: "('k \<times> 'v) list"

definition bpf_map_lookup_elem :: "('k, 'v) bpf_hash \<Rightarrow> 'k \<Rightarrow> 'v option" where
  "bpf_map_lookup_elem m k = map_of (elems m) k"

text \<open>A store through the pointer that \<^verbatim>\<open>bpf_map_lookup_elem\<close> returned for key \<open>k\<close>.\<close>

definition store_elem :: "('k, 'v) bpf_hash \<Rightarrow> 'k \<Rightarrow> 'v \<Rightarrow> ('k, 'v) bpf_hash" where
  "store_elem m k v = m\<lparr>elems := AList.update k v (elems m)\<rparr>"

text \<open>
  \<^verbatim>\<open>bpf_map_update_elem(map, key, value, BPF_ANY)\<close> on a hash map: an existing key is
  overwritten; a new key is added while the map holds fewer than \<^verbatim>\<open>max_entries\<close>
  elements, and otherwise the call fails with \<^verbatim>\<open>-E2BIG\<close> and the map is as before.
  The result is the return value and the map.
\<close>

definition E2BIG :: int where
  "E2BIG = 7"

definition bpf_map_update_elem ::
  "('k, 'v) bpf_hash \<Rightarrow> 'k \<Rightarrow> 'v \<Rightarrow> int \<times> ('k, 'v) bpf_hash" where
  "bpf_map_update_elem m k v =
     (if map_of (elems m) k \<noteq> None then (0, m\<lparr>elems := AList.update k v (elems m)\<rparr>)
      else if length (elems m) < max_entries m then (0, m\<lparr>elems := elems m @ [(k, v)]\<rparr>)
      else (- E2BIG, m))"

text \<open>
  A \<^verbatim>\<open>BPF_MAP_TYPE_PERCPU_ARRAY\<close> map: every CPU has its own slot for each index
  below \<^verbatim>\<open>max_entries\<close>; the lookup yields the slot of the CPU the program runs on,
  and NULL only for an index out of range.
\<close>

record 'v bpf_percpu_array =
  pa_max_entries :: nat
  slots :: "nat \<Rightarrow> u32 \<Rightarrow> 'v"

definition percpu_lookup_elem :: "'v bpf_percpu_array \<Rightarrow> nat \<Rightarrow> u32 \<Rightarrow> 'v option" where
  "percpu_lookup_elem m cpu k =
     (if unat k < pa_max_entries m then Some (slots m cpu k) else None)"

definition percpu_store_elem ::
  "'v bpf_percpu_array \<Rightarrow> nat \<Rightarrow> u32 \<Rightarrow> 'v \<Rightarrow> 'v bpf_percpu_array" where
  "percpu_store_elem m cpu k v = m\<lparr>slots := (slots m)(cpu := (slots m cpu)(k := v))\<rparr>"

section \<open>Helpers shared by both programs\<close>

text \<open>\<^verbatim>\<open>__builtin_memset(dst, 0, len)\<close>.\<close>

definition memset0 :: "char list \<Rightarrow> nat \<Rightarrow> char list" where
  "memset0 dst len = replicate len NUL @ drop len dst"

text \<open>
  \<^verbatim>\<open>write_placeholder\<close>. The destination is always a member array of a record, so the
  pointer is never NULL and only the length test remains.
\<close>

definition write_placeholder :: "char list \<Rightarrow> nat \<Rightarrow> char list" where
  "write_placeholder dst len =
     (if len = 0 then dst
      else let d0 = memset0 dst len;
               d1 = (if len > 0 then d0[0 := CHR ''n''] else d0);
               d2 = (if len > 1 then d1[1 := CHR ''/''] else d1);
               d3 = (if len > 2 then d2[2 := CHR ''a''] else d2)
           in d3)"

text \<open>
  \<^verbatim>\<open>bpf_core_read_str(dst, len, src)\<close>, the kernel's string read: at most \<open>len - 1\<close>
  bytes of the string are copied and a terminator is written after them; the return
  value is the number of bytes written, terminator included. An unreadable source gives
  \<^verbatim>\<open>-EFAULT\<close> and a zeroed destination.
\<close>

definition EFAULT :: int where
  "EFAULT = 14"

definition bpf_core_read_str :: "char list \<Rightarrow> nat \<Rightarrow> kstr \<Rightarrow> int \<times> char list" where
  "bpf_core_read_str dst len src =
     (if len = 0 then (0, dst)
      else case src of
        Fault \<Rightarrow> (- EFAULT, memset0 dst len)
      | CStr s \<Rightarrow>
          (let t = take (len - 1) (takeWhile (\<lambda>c. c \<noteq> NUL) s)
           in (int (length t) + 1, t @ [NUL] @ drop (length t + 1) dst)))"

text \<open>
  \<^verbatim>\<open>bpf_get_current_comm(buf, sz)\<close>: the task name, truncated to \<open>sz - 1\<close> bytes and
  padded with null bytes; a zeroed buffer when there is no current task.
\<close>

definition bpf_get_current_comm :: "string option \<Rightarrow> char list \<Rightarrow> nat \<Rightarrow> char list" where
  "bpf_get_current_comm cur buf sz =
     (case cur of
        None \<Rightarrow> memset0 buf sz
      | Some s \<Rightarrow>
          (let t = take (sz - 1) (takeWhile (\<lambda>c. c \<noteq> NUL) s)
           in t @ replicate (sz - length t) NUL @ drop sz buf))"

text \<open>
  \<^verbatim>\<open>snapshot_cgroup(dst, len)\<close>, identical in both source files. The result is the
  return value and the destination buffer as the call leaves it.
\<close>

definition snapshot_cgroup :: "task_struct option \<Rightarrow> char list \<Rightarrow> nat \<Rightarrow> bool \<times> char list" where
  "snapshot_cgroup cur dst len =
     (if len = 0 then (False, dst)
      else let d = memset0 dst len in
        (case cur of None \<Rightarrow> (False, d) | Some task \<Rightarrow>
        (case cgroups task of None \<Rightarrow> (False, d) | Some cset \<Rightarrow>
        (case dfl_cgrp cset of None \<Rightarrow> (False, d) | Some cgrp \<Rightarrow>
        (case kn cgrp of None \<Rightarrow> (False, d) | Some node \<Rightarrow>
          (let leaf = name node;
               (n, d1) = (case leaf of None \<Rightarrow> (0, d) | Some l \<Rightarrow> bpf_core_read_str d len l)
           in if leaf \<noteq> None \<and> n > 0 then (True, d1)
              else (case parent node of
                      None \<Rightarrow> (False, d1)
                    | Some parent_kn \<Rightarrow>
                        (case name parent_kn of
                           None \<Rightarrow> (False, d1)
                         | Some p \<Rightarrow>
                             (let (m, d2) = bpf_core_read_str d1 len p
                              in (m > 0, d2))))))))))"

section \<open>\<^verbatim>\<open>cpu_hotspot.c\<close>\<close>

text \<open>The three maps of the program, with the names the source gives them.\<close>

record hotspot_maps =
  cpu_state :: "cpu_state bpf_percpu_array"
  pid_stats :: "(u32, pid_stat) bpf_hash"
  cpu_contention :: "(u64, u64) bpf_hash"

text \<open>
  \<^verbatim>\<open>handle_sched_switch\<close>. Pointers into map values (\<^verbatim>\<open>st\<close>, \<^verbatim>\<open>cnt\<close>, \<^verbatim>\<open>ps\<close>) become
  the value read and a store of the value written; \<^verbatim>\<open>sizeof\<close> of the two arrays is
  16 and 64. The result is the return value and the maps.
\<close>

definition handle_sched_switch ::
  "kernel \<Rightarrow> trace_event_raw_sched_switch \<Rightarrow> hotspot_maps \<Rightarrow> int \<times> hotspot_maps" where
  "handle_sched_switch K ctx M =
     (let ts = ktime_get_ns K;
          key = (0 :: u32)
      in case percpu_lookup_elem (cpu_state M) (smp_processor_id K) key of
           None \<Rightarrow> (0, M)
         | Some st \<Rightarrow>
             (let victim = prev_pid ctx;
                  aggressor = next_pid ctx;
                  M1 = (if victim \<noteq> 0 \<and> aggressor \<noteq> 0 then
                          (let pair = push_bit 32 (ucast victim :: u64) OR ucast aggressor
                           in case bpf_map_lookup_elem (cpu_contention M) pair of
                                Some cnt \<Rightarrow>
                                  M\<lparr>cpu_contention := store_elem (cpu_contention M) pair (cnt + 1)\<rparr>
                              | None \<Rightarrow>
                                  (let init = (1 :: u64)
                                   in M\<lparr>cpu_contention :=
                                          snd (bpf_map_update_elem (cpu_contention M) pair init)\<rparr>))
                        else M);
                  M2 = (if pid st \<noteq> 0 then
                          (let delta = ts - cpu_state.ts st;
                               pid = pid st
                           in case bpf_map_lookup_elem (pid_stats M1) pid of
                                None \<Rightarrow>
                                  (let new_ps = \<lparr>cpu_time_ns = 0, comm = replicate 16 NUL,
                                                 cgroup = replicate 64 NUL\<rparr>;
                                       new_ps = new_ps\<lparr>cpu_time_ns := delta\<rparr>;
                                       new_ps = new_ps\<lparr>comm :=
                                          bpf_get_current_comm (current_comm K) (comm new_ps) 16\<rparr>;
                                       (ok, cg) = snapshot_cgroup (current_task K)
                                                    (pid_stat.cgroup new_ps) 64;
                                       new_ps = new_ps\<lparr>pid_stat.cgroup :=
                                          (if \<not> ok then write_placeholder cg 64 else cg)\<rparr>
                                   in M1\<lparr>pid_stats :=
                                          snd (bpf_map_update_elem (pid_stats M1) pid new_ps)\<rparr>)
                              | Some ps \<Rightarrow>
                                  (let ps = ps\<lparr>cpu_time_ns := cpu_time_ns ps + delta\<rparr>;
                                       ps = (if pid_stat.cgroup ps ! 0 = NUL then
                                               (let (ok, cg) = snapshot_cgroup (current_task K)
                                                                 (pid_stat.cgroup ps) 64
                                                in ps\<lparr>pid_stat.cgroup :=
                                                     (if \<not> ok then write_placeholder cg 64 else cg)\<rparr>)
                                             else ps);
                                       ps = (if comm ps ! 0 = NUL then
                                               ps\<lparr>comm :=
                                                  bpf_get_current_comm (current_comm K) (comm ps) 16\<rparr>
                                             else ps)
                                   in M1\<lparr>pid_stats := store_elem (pid_stats M1) pid ps\<rparr>))
                        else M1);
                  next_pid = next_pid ctx;
                  st = st\<lparr>pid := next_pid\<rparr>;
                  st = st\<lparr>ts := ts\<rparr>
              in (0, M2\<lparr>cpu_state :=
                          percpu_store_elem (cpu_state M2) (smp_processor_id K) key st\<rparr>)))"

section \<open>\<^verbatim>\<open>memory_faults.c\<close>\<close>

text \<open>
  \<^verbatim>\<open>record_fault\<close>, on the map \<^verbatim>\<open>page_faults\<close>. The upper half of
  \<^verbatim>\<open>bpf_get_current_pid_tgid()\<close> is the key.
\<close>

definition record_fault ::
  "kernel \<Rightarrow> (u32, fault_stat) bpf_hash \<Rightarrow> int \<times> (u32, fault_stat) bpf_hash" where
  "record_fault K page_faults =
     (let pid = (ucast (drop_bit 32 (current_pid_tgid K)) :: u32)
      in if pid = 0 then (0, page_faults)
         else case bpf_map_lookup_elem page_faults pid of
           Some entry \<Rightarrow>
             (let entry = entry\<lparr>faults := faults entry + 1\<rparr>;
                  entry = (if fault_stat.cgroup entry ! 0 = NUL then
                             (let (ok, cg) = snapshot_cgroup (current_task K)
                                               (fault_stat.cgroup entry) 64
                              in entry\<lparr>fault_stat.cgroup :=
                                   (if \<not> ok then write_placeholder cg 64 else cg)\<rparr>)
                           else entry)
              in (0, store_elem page_faults pid entry))
         | None \<Rightarrow>
             (let init = \<lparr>faults = 0, cgroup = replicate 64 NUL\<rparr>;
                  init = init\<lparr>faults := 1\<rparr>;
                  (ok, cg) = snapshot_cgroup (current_task K) (fault_stat.cgroup init) 64;
                  init = init\<lparr>fault_stat.cgroup :=
                     (if \<not> ok then write_placeholder cg 64 else cg)\<rparr>
              in (0, snd (bpf_map_update_elem page_faults pid init))))"

definition handle_mm_fault_kprobe ::
  "kernel \<Rightarrow> (u32, fault_stat) bpf_hash \<Rightarrow> int \<times> (u32, fault_stat) bpf_hash" where
  "handle_mm_fault_kprobe K page_faults = record_fault K page_faults"

section \<open>Event sequences\<close>

text \<open>
  The maps of both programs, as created at load time: empty hash maps with the
  declared \<^verbatim>\<open>max_entries\<close>, and a zero-filled per-CPU array of one entry.
\<close>

record maps =
  hotspot :: hotspot_maps
  page_faults :: "(u32, fault_stat) bpf_hash"

definition initial_maps :: maps where
  "initial_maps =
     \<lparr>hotspot =
        \<lparr>cpu_state = \<lparr>pa_max_entries = 1, slots = (\<lambda>cpu k. \<lparr>pid = 0, ts = 0\<rparr>)\<rparr>,
         pid_stats = \<lparr>max_entries = 10240, elems = []\<rparr>,
         cpu_contention = \<lparr>max_entries = 2048, elems = []\<rparr>\<rparr>,
      page_faults = \<lparr>max_entries = 4096, elems = []\<rparr>\<rparr>"

text \<open>
  The two kinds of event the kernel delivers, each with what the helpers observe when
  the handler runs.
\<close>

datatype event =
  Sched_switch kernel trace_event_raw_sched_switch
| Mm_fault kernel

fun deliver :: "maps \<Rightarrow> event \<Rightarrow> maps" where
  "deliver S (Sched_switch K ctx) = S\<lparr>hotspot := snd (handle_sched_switch K ctx (hotspot S))\<rparr>"
| "deliver S (Mm_fault K) = S\<lparr>page_faults := snd (handle_mm_fault_kprobe K (page_faults S))\<rparr>"

definition run :: "maps \<Rightarrow> event list \<Rightarrow> maps" where
  "run S evs = foldl deliver S evs"

section \<open>Handlers on two CPUs\<close>

text \<open>
  The page-fault handler can run on several CPUs at once. Each helper call is one
  step on the shared map; between two helper calls of one handler the other may run.
  \<^verbatim>\<open>record_fault\<close> is therefore cut where the source calls
  \<^verbatim>\<open>bpf_map_lookup_elem\<close>: a handler has entered, or has looked the key up and holds
  the pointer (NULL or not), or has returned. \<open>record_fault_rest\<close> is the source text
  after the lookup: with a pointer it works on the record the pointer leads to, as the
  map holds it at that moment (records are never deleted); with NULL it builds the
  fresh record and calls \<^verbatim>\<open>bpf_map_update_elem\<close>.
\<close>

datatype fault_thread = Entered kernel | Looked_up kernel bool | Returned

definition record_fault_rest ::
  "kernel \<Rightarrow> bool \<Rightarrow> (u32, fault_stat) bpf_hash \<Rightarrow> int \<times> (u32, fault_stat) bpf_hash" where
  "record_fault_rest K entry_found pf =
     (let pid = (ucast (drop_bit 32 (current_pid_tgid K)) :: u32)
      in if entry_found then
           (case bpf_map_lookup_elem pf pid of
              Some entry \<Rightarrow>
                (let entry = entry\<lparr>faults := faults entry + 1\<rparr>;
                     entry = (if fault_stat.cgroup entry ! 0 = NUL then
                                (let (ok, cg) = snapshot_cgroup (current_task K)
                                                  (fault_stat.cgroup entry) 64
                                 in entry\<lparr>fault_stat.cgroup :=
                                      (if \<not> ok then write_placeholder cg 64 else cg)\<rparr>)
                              else entry)
                 in (0, store_elem pf pid entry))
            | None \<Rightarrow> (0, pf))
         else
           (let init = \<lparr>faults = 0, cgroup = replicate 64 NUL\<rparr>;
                init = init\<lparr>faults := 1\<rparr>;
                (ok, cg) = snapshot_cgroup (current_task K) (fault_stat.cgroup init) 64;
                init = init\<lparr>fault_stat.cgroup :=
                   (if \<not> ok then write_placeholder cg 64 else cg)\<rparr>
            in (0, snd (bpf_map_update_elem pf pid init))))"

fun fault_step ::
  "fault_thread \<Rightarrow> (u32, fault_stat) bpf_hash \<Rightarrow> fault_thread \<times> (u32, fault_stat) bpf_hash" where
  "fault_step (Entered K) pf =
     (let pid = (ucast (drop_bit 32 (current_pid_tgid K)) :: u32)
      in if pid = 0 then (Returned, pf)
         else (Looked_up K (bpf_map_lookup_elem pf pid \<noteq> None), pf))"
| "fault_step (Looked_up K entry_found) pf =
     (Returned, snd (record_fault_rest K entry_found pf))"
| "fault_step Returned pf = (Returned, pf)"

datatype cpu = Cpu0 | Cpu1

text \<open>
  Two handlers and the shared map; a schedule says which CPU takes the next step.
\<close>

fun interleave ::
  "cpu list \<Rightarrow> fault_thread \<times> fault_thread \<times> (u32, fault_stat) bpf_hash \<Rightarrow>
     fault_thread \<times> fault_thread \<times> (u32, fault_stat) bpf_hash" where
  "interleave [] c = c"
| "interleave (Cpu0 # sched) (t0, t1, pf) =
     (let (t0', pf') = fault_step t0 pf
      in interleave sched (t0', t1, pf'))"
| "interleave (Cpu1 # sched) (t0, t1, pf) =
     (let (t1', pf') = fault_step t1 pf
      in interleave sched (t0, t1', pf'))"

section \<open>Derived notions used in the statements\<close>

text \<open>
  Both programs fill a group buffer with the statement
  \<^verbatim>\<open>if (!snapshot_cgroup(buf, sizeof(buf))) write_placeholder(buf, sizeof(buf));\<close>
  on a 64-byte array; this is the buffer it leaves.
\<close>

definition resolve_or_placeholder :: "kernel \<Rightarrow> char list \<Rightarrow> char list" where
  "resolve_or_placeholder K buf =
     (let (ok, cg) = snapshot_cgroup (current_task K) buf 64
      in if \<not> ok then write_placeholder cg 64 else cg)"

text \<open>The contention key \<^verbatim>\<open>((u64)victim << 32) | aggressor\<close>.\<close>

definition pair_key :: "u32 \<Rightarrow> u32 \<Rightarrow> u64" where
  "pair_key victim aggressor = push_bit 32 (ucast victim :: u64) OR ucast aggressor"

text \<open>
  The node at the end of the chain \<^verbatim>\<open>task->cgroups->dfl_cgrp->kn\<close>, absent as soon as
  one hop is; whether a name pointer is present and leads to readable memory; and a
  name as a buffer of \<open>len\<close> bytes holds it: cut at \<open>len - 1\<close> bytes, null-padded.
\<close>

definition leaf_node :: "task_struct option \<Rightarrow> kernfs_node option" where
  "leaf_node cur = Option.bind (Option.bind (Option.bind cur cgroups) dfl_cgrp) kn"

definition name_in_buffer :: "string \<Rightarrow> nat \<Rightarrow> char list" where
  "name_in_buffer s len =
     (let t = take (len - 1) (takeWhile (\<lambda>c. c \<noteq> NUL) s)
      in t @ replicate (len - length t) NUL)"

fun readable :: "kstr option \<Rightarrow> bool" where
  "readable (Some (CStr s)) = True"
| "readable _ = False"

text \<open>
  The condition the specification puts on the leaf (section 4.2): its name is present
  and not the empty string.
\<close>

definition leaf_name_nonempty :: "task_struct option \<Rightarrow> bool" where
  "leaf_name_nonempty cur =
     (case leaf_node cur of
        None \<Rightarrow> False
      | Some node \<Rightarrow>
          (case name node of
             Some (CStr s) \<Rightarrow> takeWhile (\<lambda>c. c \<noteq> NUL) s \<noteq> []
           | _ \<Rightarrow> False))"

text \<open>
  The shape of all three updates in the handlers: look the key up; store through the
  pointer when it is found, call \<^verbatim>\<open>bpf_map_update_elem\<close> with a fresh value when it
  is not. The fresh record and the in-place change are named for each map.
\<close>

definition upsert :: "('k, 'v) bpf_hash \<Rightarrow> 'k \<Rightarrow> 'v \<Rightarrow> ('v \<Rightarrow> 'v) \<Rightarrow> ('k, 'v) bpf_hash" where
  "upsert m k v f =
     (case bpf_map_lookup_elem m k of
        None \<Rightarrow> snd (bpf_map_update_elem m k v)
      | Some x \<Rightarrow> store_elem m k (f x))"

definition new_pid_stat :: "kernel \<Rightarrow> u64 \<Rightarrow> pid_stat" where
  "new_pid_stat K delta =
     \<lparr>cpu_time_ns = delta,
      comm = bpf_get_current_comm (current_comm K) (replicate 16 NUL) 16,
      cgroup = resolve_or_placeholder K (replicate 64 NUL)\<rparr>"

definition touch_pid_stat :: "kernel \<Rightarrow> u64 \<Rightarrow> pid_stat \<Rightarrow> pid_stat" where
  "touch_pid_stat K delta ps =
     ps\<lparr>cpu_time_ns := cpu_time_ns ps + delta,
        pid_stat.cgroup :=
          (if pid_stat.cgroup ps ! 0 = NUL
           then resolve_or_placeholder K (pid_stat.cgroup ps)
           else pid_stat.cgroup ps),
        comm :=
          (if comm ps ! 0 = NUL
           then bpf_get_current_comm (current_comm K) (comm ps) 16
           else comm ps)\<rparr>"

definition new_fault_stat :: "kernel \<Rightarrow> fault_stat" where
  "new_fault_stat K = \<lparr>faults = 1, cgroup = resolve_or_placeholder K (replicate 64 NUL)\<rparr>"

definition touch_fault_stat :: "kernel \<Rightarrow> fault_stat \<Rightarrow> fault_stat" where
  "touch_fault_stat K e =
     e\<lparr>faults := faults e + 1,
       fault_stat.cgroup :=
         (if fault_stat.cgroup e ! 0 = NUL
          then resolve_or_placeholder K (fault_stat.cgroup e)
          else fault_stat.cgroup e)\<rparr>"

text \<open>
  The group and the name stored for a key of \<^verbatim>\<open>pid_stats\<close>, and the group stored for a
  key of \<^verbatim>\<open>page_faults\<close>; \<open>None\<close> when the key has no record.
\<close>

definition stat_group :: "maps \<Rightarrow> u32 \<Rightarrow> char list option" where
  "stat_group S k = map_option pid_stat.cgroup (bpf_map_lookup_elem (pid_stats (hotspot S)) k)"

definition stat_name :: "maps \<Rightarrow> u32 \<Rightarrow> char list option" where
  "stat_name S k = map_option comm (bpf_map_lookup_elem (pid_stats (hotspot S)) k)"

definition fault_group :: "maps \<Rightarrow> u32 \<Rightarrow> char list option" where
  "fault_group S k = map_option fault_stat.cgroup (bpf_map_lookup_elem (page_faults S) k)"

text \<open>
  The CPU time accumulated for a pid: the field of its record, 0 when it has none.
\<close>

definition cpu_time :: "maps \<Rightarrow> u32 \<Rightarrow> u64" where
  "cpu_time S x =
     (case bpf_map_lookup_elem (pid_stats (hotspot S)) x of
        None \<Rightarrow> 0
      | Some ps \<Rightarrow> cpu_time_ns ps)"

text \<open>
  The table \<^verbatim>\<open>pid_stats\<close> never saturates during a sequence: before each event it holds
  fewer than \<^verbatim>\<open>max_entries\<close> elements.
\<close>

fun never_saturates :: "maps \<Rightarrow> event list \<Rightarrow> bool" where
  "never_saturates S [] = True"
| "never_saturates S (e # evs) =
     (length (elems (pid_stats (hotspot S))) < max_entries (pid_stats (hotspot S))
      \<and> never_saturates (deliver S e) evs)"

text \<open>
  The sum the claim speaks of, following its words: over a list of (timestamp, entity
  stored from then on) pairs, the sum of \<open>ts\<^sub>i\<^sub>+\<^sub>1 - ts\<^sub>i\<close> over the consecutive pairs
  whose stored entity is \<open>x\<close>, in 64-bit unsigned arithmetic. A switch event
  contributes its timestamp and its next pid.
\<close>

fun interval_sum :: "u32 \<Rightarrow> (u64 \<times> u32) list \<Rightarrow> u64" where
  "interval_sum x ((t, p) # (t', p') # rest) =
     (if p = x then t' - t else 0) + interval_sum x ((t', p') # rest)"
| "interval_sum x [i] = 0"
| "interval_sum x [] = 0"

definition stamp :: "kernel \<times> trace_event_raw_sched_switch \<Rightarrow> u64 \<times> u32" where
  "stamp = (\<lambda>(K, ctx). (ktime_get_ns K, next_pid ctx))"

definition switches :: "(kernel \<times> trace_event_raw_sched_switch) list \<Rightarrow> event list" where
  "switches sw = map (\<lambda>(K, ctx). Sched_switch K ctx) sw"

section \<open>Concrete inputs\<close>

text \<open>
  A task in the group \<^verbatim>\<open>web\<close> under \<^verbatim>\<open>system.slice\<close>, and the same task seen by a
  page-fault event of process 9; a kernel state in which no current task is available,
  so that the resolver fails.
\<close>

definition web_task :: task_struct where
  "web_task =
     \<lparr>cgroups = Some \<lparr>dfl_cgrp = Some \<lparr>kn = Some
        (Kernfs_node (Some (CStr ''web''))
           (Some (Kernfs_node (Some (CStr ''system.slice'')) None)))\<rparr>\<rparr>\<rparr>"

definition K_web :: kernel where
  "K_web =
     \<lparr>ktime_get_ns = 0, current_task = Some web_task, current_comm = Some ''nginx'',
      current_pid_tgid = 0x900000009, smp_processor_id = 0\<rparr>"

definition K_no_task :: kernel where
  "K_no_task =
     \<lparr>ktime_get_ns = 0, current_task = None, current_comm = None,
      current_pid_tgid = 0x900000009, smp_processor_id = 0\<rparr>"

text \<open>A task in the root group, whose node has the empty name.\<close>

definition root_task :: task_struct where
  "root_task =
     \<lparr>cgroups = Some \<lparr>dfl_cgrp = Some \<lparr>kn = Some
        (Kernfs_node (Some (CStr ''''))
           (Some (Kernfs_node (Some (CStr ''system.slice'')) None)))\<rparr>\<rparr>\<rparr>"

text \<open>A task whose node has no name pointer; its parent is named.\<close>

definition unnamed_leaf_task :: task_struct where
  "unnamed_leaf_task =
     \<lparr>cgroups = Some \<lparr>dfl_cgrp = Some \<lparr>kn = Some
        (Kernfs_node None (Some (Kernfs_node (Some (CStr ''system.slice'')) None)))\<rparr>\<rparr>\<rparr>"

text \<open>
  A page-fault event of process 9 while it runs in the root group, and a context-switch
  event at time 100.
\<close>

definition K_root :: kernel where
  "K_root =
     \<lparr>ktime_get_ns = 0, current_task = Some root_task, current_comm = Some ''init'',
      current_pid_tgid = 0x900000009, smp_processor_id = 0\<rparr>"

definition K_t100 :: kernel where
  "K_t100 =
     \<lparr>ktime_get_ns = 100, current_task = Some web_task, current_comm = Some ''nginx'',
      current_pid_tgid = 0x2A0000002A, smp_processor_id = 0\<rparr>"

text \<open>
  A context-switch event at time 400, and maps in which the pair (victim 7, aggressor 5)
  has been counted three times while pid 5 runs on every CPU since time 150.
\<close>

definition K_t400 :: kernel where
  "K_t400 =
     \<lparr>ktime_get_ns = 400, current_task = Some web_task, current_comm = Some ''nginx'',
      current_pid_tgid = 0x500000005, smp_processor_id = 0\<rparr>"

definition contended_maps :: hotspot_maps where
  "contended_maps =
     \<lparr>cpu_state = \<lparr>pa_max_entries = 1, slots = (\<lambda>cpu k. \<lparr>pid = 5, ts = 150\<rparr>)\<rparr>,
      pid_stats = \<lparr>max_entries = 10240, elems = []\<rparr>,
      cpu_contention = \<lparr>max_entries = 2048, elems = [(0x700000005, 3)]\<rparr>\<rparr>"

text \<open>
  Maps that are full: one entry each, for the sake of small examples. Pid 42 runs on
  every CPU since time 150 and has no record; in the second state pid 7 runs, which has
  one. The page-fault map holds process 5 only.
\<close>

definition full_maps :: hotspot_maps where
  "full_maps =
     \<lparr>cpu_state = \<lparr>pa_max_entries = 1, slots = (\<lambda>cpu k. \<lparr>pid = 42, ts = 150\<rparr>)\<rparr>,
      pid_stats = \<lparr>max_entries = 1,
                   elems = [(7, \<lparr>cpu_time_ns = 10, comm = ''sh'' @ replicate 14 NUL,
                                 cgroup = ''n/a'' @ replicate 61 NUL\<rparr>)]\<rparr>,
      cpu_contention = \<lparr>max_entries = 1, elems = [(0x700000005, 3)]\<rparr>\<rparr>"

definition full_maps_running_7 :: hotspot_maps where
  "full_maps_running_7 =
     full_maps\<lparr>cpu_state := \<lparr>pa_max_entries = 1, slots = (\<lambda>cpu k. \<lparr>pid = 7, ts = 150\<rparr>)\<rparr>\<rparr>"

definition full_page_faults :: "(u32, fault_stat) bpf_hash" where
  "full_page_faults =
     \<lparr>max_entries = 1, elems = [(5, \<lparr>faults = 4, cgroup = ''n/a'' @ replicate 61 NUL\<rparr>)]\<rparr>"

text \<open>
  Scenario A of the specification on CPU 0: switch events at times 100, 150 and 400
  with next pids 0, 42 and 7.
\<close>

definition K_t150 :: kernel where
  "K_t150 =
     \<lparr>ktime_get_ns = 150, current_task = None, current_comm = None,
      current_pid_tgid = 0, smp_processor_id = 0\<rparr>"

definition scenario_A :: "event list" where
  "scenario_A =
     [Sched_switch K_t100 \<lparr>prev_pid = 7, next_pid = 0\<rparr>,
      Sched_switch K_t150 \<lparr>prev_pid = 0, next_pid = 42\<rparr>,
      Sched_switch K_t400 \<lparr>prev_pid = 42, next_pid = 7\<rparr>]"

text \<open>
  A state whose records hold the placeholder, and one whose records for pid 7 and for
  process 5 have an empty group (and pid 7 an empty name).
\<close>

definition frozen_state :: maps where
  "frozen_state = \<lparr>hotspot = full_maps_running_7, page_faults = full_page_faults\<rparr>"

definition unresolved_state :: maps where
  "unresolved_state =
     \<lparr>hotspot =
        \<lparr>cpu_state = \<lparr>pa_max_entries = 1, slots = (\<lambda>cpu k. \<lparr>pid = 7, ts = 150\<rparr>)\<rparr>,
         pid_stats = \<lparr>max_entries = 10240,
                      elems = [(7, \<lparr>cpu_time_ns = 10, comm = replicate 16 NUL,
                                    cgroup = replicate 64 NUL\<rparr>)]\<rparr>,
         cpu_contention = \<lparr>max_entries = 2048, elems = []\<rparr>\<rparr>,
      page_faults =
        \<lparr>max_entries = 4096,
         elems = [(5, \<lparr>faults = 1, cgroup = replicate 64 NUL\<rparr>)]\<rparr>\<rparr>"

text \<open>Scenario A as a list of context-switch events.\<close>

definition scenario_A_switches :: "(kernel \<times> trace_event_raw_sched_switch) list" where
  "scenario_A_switches =
     [(K_t100, \<lparr>prev_pid = 7, next_pid = 0\<rparr>),
      (K_t150, \<lparr>prev_pid = 0, next_pid = 42\<rparr>),
      (K_t400, \<lparr>prev_pid = 42, next_pid = 7\<rparr>)]"

text \<open>
  A second thread (10) of process 9, running on CPU 1 at time 450.
\<close>

definition K_t450_cpu1 :: kernel where
  "K_t450_cpu1 =
     \<lparr>ktime_get_ns = 450, current_task = Some web_task, current_comm = Some ''nginx'',
      current_pid_tgid = 0x90000000A, smp_processor_id = 1\<rparr>"

section \<open>Basic facts about the maps\<close>

lemma length_AList_update:
  "k \<in> fst ` set al \<Longrightarrow> length (AList.update k v al) = length al"
  by (induction al) auto

lemma lookup_store_elem:
  "bpf_map_lookup_elem (store_elem m k v) k' =
     (if k' = k then Some v else bpf_map_lookup_elem m k')"
  by (simp add: bpf_map_lookup_elem_def store_elem_def update_conv')

lemma max_entries_store_elem: "max_entries (store_elem m k v) = max_entries m"
  by (simp add: store_elem_def)

lemma keys_store_elem:
  "fst ` set (elems (store_elem m k v)) = insert k (fst ` set (elems m))"
  by (simp add: store_elem_def dom_update)

lemma length_store_elem:
  "bpf_map_lookup_elem m k \<noteq> None \<Longrightarrow> length (elems (store_elem m k v)) = length (elems m)"
  by (simp add: store_elem_def bpf_map_lookup_elem_def length_AList_update map_of_eq_None_iff)

lemma lookup_update_elem:
  "bpf_map_lookup_elem (snd (bpf_map_update_elem m k v)) k' =
     (if bpf_map_lookup_elem m k = None \<and> max_entries m \<le> length (elems m)
      then bpf_map_lookup_elem m k'
      else if k' = k then Some v else bpf_map_lookup_elem m k')"
  by (auto simp add: bpf_map_lookup_elem_def bpf_map_update_elem_def update_conv' map_add_def split: option.splits)

lemma max_entries_update_elem: "max_entries (snd (bpf_map_update_elem m k v)) = max_entries m"
  by (simp add: bpf_map_update_elem_def)

lemma keys_update_elem:
  "fst ` set (elems (snd (bpf_map_update_elem m k v))) \<subseteq> insert k (fst ` set (elems m))"
  by (auto simp add: bpf_map_update_elem_def dom_update)

lemma record_fault_ret: "fst (record_fault K pf) = 0"
  by (simp add: record_fault_def Let_def split: option.splits prod.splits)

lemma record_fault_maps:
  "snd (record_fault K pf) =
     (let pid = (ucast (drop_bit 32 (current_pid_tgid K)) :: u32)
      in if pid = 0 then pf
         else case bpf_map_lookup_elem pf pid of
           Some e \<Rightarrow> store_elem pf pid
             (e\<lparr>faults := faults e + 1,
                fault_stat.cgroup :=
                  (if fault_stat.cgroup e ! 0 = NUL
                   then resolve_or_placeholder K (fault_stat.cgroup e)
                   else fault_stat.cgroup e)\<rparr>)
         | None \<Rightarrow> snd (bpf_map_update_elem pf pid
             \<lparr>faults = 1, cgroup = resolve_or_placeholder K (replicate 64 NUL)\<rparr>))"
  by (simp add: record_fault_def resolve_or_placeholder_def Let_def split: option.splits prod.splits)

lemma sched_switch_ret: "fst (handle_sched_switch K ctx M) = 0"
  by (simp add: handle_sched_switch_def Let_def split: option.splits prod.splits)

lemma sched_switch_cpu_contention:
  "0 < pa_max_entries (cpu_state M) \<Longrightarrow>
   cpu_contention (snd (handle_sched_switch K ctx M)) =
     (if prev_pid ctx \<noteq> 0 \<and> next_pid ctx \<noteq> 0 then
        (case bpf_map_lookup_elem (cpu_contention M) (pair_key (prev_pid ctx) (next_pid ctx)) of
           Some cnt \<Rightarrow> store_elem (cpu_contention M) (pair_key (prev_pid ctx) (next_pid ctx)) (cnt + 1)
         | None \<Rightarrow> snd (bpf_map_update_elem (cpu_contention M)
                      (pair_key (prev_pid ctx) (next_pid ctx)) 1))
      else cpu_contention M)"
  by (simp add: handle_sched_switch_def percpu_lookup_elem_def pair_key_def Let_def
           split: option.splits prod.splits)

lemma sched_switch_pid_stats:
  "0 < pa_max_entries (cpu_state M) \<Longrightarrow>
   pid_stats (snd (handle_sched_switch K ctx M)) =
     (let st = slots (cpu_state M) (smp_processor_id K) 0;
          delta = ktime_get_ns K - ts st
      in if pid st = 0 then pid_stats M
         else case bpf_map_lookup_elem (pid_stats M) (pid st) of
           None \<Rightarrow> snd (bpf_map_update_elem (pid_stats M) (pid st)
                      \<lparr>cpu_time_ns = delta,
                       comm = bpf_get_current_comm (current_comm K) (replicate 16 NUL) 16,
                       cgroup = resolve_or_placeholder K (replicate 64 NUL)\<rparr>)
         | Some ps \<Rightarrow> store_elem (pid_stats M) (pid st)
             (ps\<lparr>cpu_time_ns := cpu_time_ns ps + delta,
                 pid_stat.cgroup :=
                   (if pid_stat.cgroup ps ! 0 = NUL
                    then resolve_or_placeholder K (pid_stat.cgroup ps)
                    else pid_stat.cgroup ps),
                 comm :=
                   (if comm ps ! 0 = NUL
                    then bpf_get_current_comm (current_comm K) (comm ps) 16
                    else comm ps)\<rparr>))"
  by (simp add: handle_sched_switch_def percpu_lookup_elem_def resolve_or_placeholder_def Let_def
           split: option.splits prod.splits)

lemma cpu_state_overwrite:
  "(st :: cpu_state)\<lparr>pid := p, ts := t\<rparr> = \<lparr>pid = p, ts = t\<rparr>"
  by (cases st) simp

lemma sched_switch_cpu_state:
  "0 < pa_max_entries (cpu_state M) \<Longrightarrow>
   cpu_state (snd (handle_sched_switch K ctx M)) =
     percpu_store_elem (cpu_state M) (smp_processor_id K) 0
       \<lparr>pid = next_pid ctx, ts = ktime_get_ns K\<rparr>"
  by (simp add: handle_sched_switch_def percpu_lookup_elem_def Let_def cpu_state_overwrite
           split: option.splits prod.splits)

section \<open>Buffers and event sequences\<close>

lemma write_placeholder_64:
  "write_placeholder d 64 = ''n/a'' @ replicate 61 NUL @ drop 64 d"
proof -
  have "replicate 64 NUL = NUL # NUL # NUL # replicate 61 NUL"
    by (simp add: numeral_eq_Suc)
  then show ?thesis
    by (simp add: write_placeholder_def memset0_def)
qed

lemma length_memset0: "length dst = len \<Longrightarrow> length (memset0 dst len) = len"
  by (simp add: memset0_def)

lemma length_bpf_core_read_str:
  "length dst = len \<Longrightarrow> length (snd (bpf_core_read_str dst len src)) = len"
  by (cases src) (auto simp add: bpf_core_read_str_def memset0_def Let_def)

lemma length_snapshot_cgroup:
  "length dst = len \<Longrightarrow> length (snd (snapshot_cgroup cur dst len)) = len"
  by (auto simp add: snapshot_cgroup_def Let_def length_memset0 length_bpf_core_read_str
       split: option.splits prod.splits)
    (metis length_bpf_core_read_str length_memset0 snd_conv)+


lemma fst_bpf_core_read_str:
  "fst (bpf_core_read_str dst len src) = fst (bpf_core_read_str dst' len src)"
  by (cases src) (simp_all add: bpf_core_read_str_def Let_def)

lemma resolve_failed:
  assumes "length buf = 64" and "\<not> fst (snapshot_cgroup (current_task K) buf 64)"
  shows "resolve_or_placeholder K buf = ''n/a'' @ replicate 61 NUL"
proof (cases "snapshot_cgroup (current_task K) buf 64")
  case (Pair ok cg)
  with assms(2) have "\<not> ok" by simp
  moreover from Pair length_snapshot_cgroup [OF assms(1), of "current_task K"]
  have "length cg = 64" by simp
  ultimately show ?thesis
    using Pair by (simp add: resolve_or_placeholder_def write_placeholder_64)
qed

lemma run_Nil: "run S [] = S"
  by (simp add: run_def)

lemma run_Cons: "run S (e # evs) = run (deliver S e) evs"
  by (simp add: run_def)

lemma run_snoc: "run S (evs @ [e]) = deliver (run S evs) e"
  by (simp add: run_def)

lemma page_faults_deliver_fault:
  "page_faults (deliver S (Mm_fault K)) = snd (record_fault K (page_faults S))"
  by (simp add: handle_mm_fault_kprobe_def)

section \<open>Scenario B: the placeholder sticks\<close>

text \<open>
  Claim C8. Three page-fault events of process 9 arrive at the freshly loaded program.
  The resolver fails at the first event and would succeed at the second and the third.
  After the first event the record of key 9 has one fault and its group is exactly
  \<^verbatim>\<open>n/a\<close> followed by 61 null bytes; after the second and third event the count is 2
  and 3 and the group is still that placeholder.
\<close>

theorem scenario_B_placeholder_frozen:
  assumes k1: "ucast (drop_bit 32 (current_pid_tgid K1)) = (9 :: u32)"
      and k2: "ucast (drop_bit 32 (current_pid_tgid K2)) = (9 :: u32)"
      and k3: "ucast (drop_bit 32 (current_pid_tgid K3)) = (9 :: u32)"
      and fail1: "\<not> fst (snapshot_cgroup (current_task K1) (replicate 64 NUL) 64)"
      and ok2: "\<And>buf. fst (snapshot_cgroup (current_task K2) buf 64)"
      and ok3: "\<And>buf. fst (snapshot_cgroup (current_task K3) buf 64)"
  shows "bpf_map_lookup_elem (page_faults (run initial_maps [Mm_fault K1])) 9 =
           Some \<lparr>faults = 1, cgroup = ''n/a'' @ replicate 61 NUL\<rparr>
       \<and> bpf_map_lookup_elem (page_faults (run initial_maps [Mm_fault K1, Mm_fault K2])) 9 =
           Some \<lparr>faults = 2, cgroup = ''n/a'' @ replicate 61 NUL\<rparr>
       \<and> bpf_map_lookup_elem
           (page_faults (run initial_maps [Mm_fault K1, Mm_fault K2, Mm_fault K3])) 9 =
           Some \<lparr>faults = 3, cgroup = ''n/a'' @ replicate 61 NUL\<rparr>"
proof -
  let ?s = "''n/a'' @ replicate 61 NUL"
  define P1 where "P1 = page_faults (deliver initial_maps (Mm_fault K1))"
  define P2 where "P2 = snd (record_fault K2 P1)"
  define P3 where "P3 = snd (record_fault K3 P2)"
  have e0: "bpf_map_lookup_elem (page_faults initial_maps) 9 = None"
    by (simp add: initial_maps_def bpf_map_lookup_elem_def)
  have r1: "resolve_or_placeholder K1 (replicate 64 NUL) = ?s"
    using fail1 by (simp add: resolve_failed)
  have l1: "bpf_map_lookup_elem P1 9 = Some \<lparr>faults = 1, cgroup = ?s\<rparr>"
    unfolding P1_def page_faults_deliver_fault record_fault_maps
    using k1 e0 r1 by (simp add: lookup_update_elem) (simp add: initial_maps_def)
  have l2: "bpf_map_lookup_elem P2 9 = Some \<lparr>faults = 2, cgroup = ?s\<rparr>"
    unfolding P2_def record_fault_maps
    using k2 l1 by (simp add: lookup_store_elem)
  have l3: "bpf_map_lookup_elem P3 9 = Some \<lparr>faults = 3, cgroup = ?s\<rparr>"
    unfolding P3_def record_fault_maps
    using k3 l2 by (simp add: lookup_store_elem)
  show ?thesis
    using l1 l2 l3
    by (simp add: run_Cons run_Nil P1_def P2_def P3_def page_faults_deliver_fault
          handle_mm_fault_kprobe_def)
qed

lemma snapshot_cgroup_no_task: "snapshot_cgroup None dst len = (False, if len = 0 then dst else memset0 dst len)"
  by (simp add: snapshot_cgroup_def)

lemma snapshot_cgroup_web_task: "fst (snapshot_cgroup (Some web_task) buf 64)"
  by (simp add: snapshot_cgroup_def web_task_def bpf_core_read_str_def Let_def)

theorem scenario_B_witness:
  "ucast (drop_bit 32 (current_pid_tgid K_no_task)) = (9 :: u32)
   \<and> ucast (drop_bit 32 (current_pid_tgid K_web)) = (9 :: u32)
   \<and> \<not> fst (snapshot_cgroup (current_task K_no_task) (replicate 64 NUL) 64)
   \<and> (\<forall>buf. fst (snapshot_cgroup (current_task K_web) buf 64))
   \<and> bpf_map_lookup_elem
        (page_faults (run initial_maps [Mm_fault K_no_task, Mm_fault K_web, Mm_fault K_web])) 9 =
        Some \<lparr>faults = 3, cgroup = ''n/a'' @ replicate 61 NUL\<rparr>"
proof -
  have a: "ucast (drop_bit 32 (current_pid_tgid K_no_task)) = (9 :: u32)"
    by (simp add: K_no_task_def)
  have b: "ucast (drop_bit 32 (current_pid_tgid K_web)) = (9 :: u32)"
    by (simp add: K_web_def)
  have c: "\<not> fst (snapshot_cgroup (current_task K_no_task) (replicate 64 NUL) 64)"
    by (simp add: K_no_task_def snapshot_cgroup_no_task)
  have d: "fst (snapshot_cgroup (current_task K_web) buf 64)" for buf
    by (simp add: K_web_def snapshot_cgroup_web_task)
  from scenario_B_placeholder_frozen [OF a b b c d d] a b c d show ?thesis
    by blast
qed

section \<open>The resolver\<close>

lemma leaf_node_None_iff:
  "leaf_node cur = None \<longleftrightarrow>
     (case cur of None \<Rightarrow> True | Some task \<Rightarrow>
       (case cgroups task of None \<Rightarrow> True | Some cset \<Rightarrow>
         (case dfl_cgrp cset of None \<Rightarrow> True | Some cgrp \<Rightarrow> kn cgrp = None)))"
  by (simp add: leaf_node_def split: option.splits)

lemma snapshot_cgroup_no_node:
  "0 < len \<Longrightarrow> leaf_node cur = None \<Longrightarrow> snapshot_cgroup cur dst len = (False, memset0 dst len)"
  by (auto simp add: leaf_node_def snapshot_cgroup_def Let_def split: option.splits)


lemma read_str_CStr:
  assumes "0 < len"
  shows "bpf_core_read_str (memset0 dst len) len (CStr s) =
     (1 + int (length (take (len - 1) (takeWhile (\<lambda>c. c \<noteq> NUL) s))),
      name_in_buffer s len @ drop len dst)"
proof -
  define t where "t = take (len - 1) (takeWhile (\<lambda>c. c \<noteq> NUL) s)"
  have n: "length t < len"
    using assms by (auto simp add: t_def min_def)
  then have "replicate (len - length t) NUL = NUL # replicate (len - (length t + 1)) NUL"
    by (cases "len - length t") simp_all
  with n have pad: "[NUL] @ drop (length t + 1) (memset0 dst len) =
               replicate (len - length t) NUL @ drop len dst"
    by (simp add: memset0_def)
  have "bpf_core_read_str (memset0 dst len) len (CStr s) =
          (int (length t) + 1, t @ [NUL] @ drop (length t + 1) (memset0 dst len))"
    using assms by (simp add: bpf_core_read_str_def Let_def t_def)
  moreover have "name_in_buffer s len = t @ replicate (len - length t) NUL"
    by (simp add: name_in_buffer_def Let_def t_def)
  ultimately have "bpf_core_read_str (memset0 dst len) len (CStr s) =
          (1 + int (length t), name_in_buffer s len @ drop len dst)"
    using pad by simp
  then show ?thesis
    by (simp only: t_def)
qed

lemma read_str_Fault:
  "0 < len \<Longrightarrow> bpf_core_read_str (memset0 dst len) len Fault = (- EFAULT, memset0 dst len)"
  by (simp add: bpf_core_read_str_def memset0_def)

lemma read_str_CStr_pos: "0 < len \<Longrightarrow> 0 < fst (bpf_core_read_str d len (CStr s))"
  by (simp add: bpf_core_read_str_def Let_def)

lemma memset0_idem: "memset0 (memset0 dst len) len = memset0 dst len"
  by (simp add: memset0_def)

lemma snapshot_cgroup_leaf:
  assumes "0 < len" and "leaf_node cur = Some node" and "name node = Some (CStr s)"
  shows "snapshot_cgroup cur dst len = (True, name_in_buffer s len @ drop len dst)"
  using assms
  by (auto simp add: leaf_node_def snapshot_cgroup_def Let_def read_str_CStr
      split: option.splits Option.bind_splits)

lemma snapshot_cgroup_parent:
  assumes "0 < len" and "leaf_node cur = Some node" and "\<not> readable (name node)"
  shows "snapshot_cgroup cur dst len =
     (case parent node of
        None \<Rightarrow> (False, memset0 dst len)
      | Some parent_kn \<Rightarrow>
          (case name parent_kn of
             Some (CStr s) \<Rightarrow> (True, name_in_buffer s len @ drop len dst)
           | _ \<Rightarrow> (False, memset0 dst len)))"
proof -
  from assms(3) have "name node = None \<or> name node = Some Fault"
    by (cases "name node" rule: readable.cases) simp_all
  then show ?thesis
    using assms(1,2)
    by (auto simp add: leaf_node_def snapshot_cgroup_def Let_def read_str_CStr read_str_Fault
      EFAULT_def split: option.splits Option.bind_splits kstr.splits)
qed

lemma memset0_full: "length dst = len \<Longrightarrow> memset0 dst len = replicate len NUL"
  by (simp add: memset0_def)

lemma name_in_buffer_empty: "name_in_buffer '''' len = replicate len NUL"
  by (simp add: name_in_buffer_def)

text \<open>
  Claim C4, as stated, fails. The node of \<^term>\<open>root_task\<close> has an empty name and a
  parent named \<^verbatim>\<open>system.slice\<close>. The leaf name is not "present and non-empty", yet
  the call returns success; and the buffer it leaves is all null bytes, not the
  parent's name, so the parent was not consulted.
\<close>

theorem snapshot_cgroup_empty_leaf_counterexample:
  "\<not> leaf_name_nonempty (Some root_task)
   \<and> snapshot_cgroup (Some root_task) (replicate 64 NUL) 64 = (True, replicate 64 NUL)
   \<and> name_in_buffer ''system.slice'' 64 \<noteq> replicate 64 NUL"
proof -
  have "leaf_node (Some root_task) =
          Some (Kernfs_node (Some (CStr ''''))
                  (Some (Kernfs_node (Some (CStr ''system.slice'')) None)))"
    by (simp add: leaf_node_def root_task_def)
  then have "snapshot_cgroup (Some root_task) (replicate 64 NUL) 64 = (True, replicate 64 NUL)"
    by (simp add: snapshot_cgroup_leaf name_in_buffer_empty)
  moreover have "\<not> leaf_name_nonempty (Some root_task)"
    by (simp add: leaf_name_nonempty_def leaf_node_def root_task_def)
  moreover have "hd (name_in_buffer ''system.slice'' 64) \<noteq> hd (replicate 64 NUL)"
    by (simp add: name_in_buffer_def)
  ultimately show ?thesis
    by metis
qed

text \<open>
  Claim C4, amended. For a buffer of \<open>len > 0\<close> bytes:
  \<^item> when the task, its membership record, the group or the node is absent, the call
    fails;
  \<^item> when the leaf's name pointer is present and readable the call succeeds and the
    buffer holds that name, cut to the capacity and null-padded, also when the name is
    the empty string;
  \<^item> only when the leaf's name pointer is absent or unreadable is the parent's name
    read, once: the call succeeds with the parent's name when the parent and its name
    are present and readable, and fails otherwise;
  \<^item> so the call succeeds if and only if the node is reached and its name, or else its
    parent's name, is present and readable.
\<close>

theorem snapshot_cgroup_resolution:
  assumes "0 < len" and "length dst = len"
  shows "(leaf_node cur = None \<longrightarrow> snapshot_cgroup cur dst len = (False, replicate len NUL))
    \<and> (\<forall>node s. leaf_node cur = Some node \<and> name node = Some (CStr s) \<longrightarrow>
          snapshot_cgroup cur dst len = (True, name_in_buffer s len))
    \<and> (\<forall>node. leaf_node cur = Some node \<and> \<not> readable (name node) \<longrightarrow>
          snapshot_cgroup cur dst len =
            (case parent node of
               None \<Rightarrow> (False, replicate len NUL)
             | Some parent_kn \<Rightarrow>
                 (case name parent_kn of
                    Some (CStr s) \<Rightarrow> (True, name_in_buffer s len)
                  | _ \<Rightarrow> (False, replicate len NUL))))
    \<and> (fst (snapshot_cgroup cur dst len) \<longleftrightarrow>
         (\<exists>node. leaf_node cur = Some node \<and>
            (readable (name node) \<or>
             (\<exists>parent_kn. parent node = Some parent_kn \<and> readable (name parent_kn)))))"
proof -
  have a: "leaf_node cur = None \<Longrightarrow> snapshot_cgroup cur dst len = (False, replicate len NUL)"
    using assms(1) by (simp add: snapshot_cgroup_no_node memset0_full [OF assms(2)])
  have b: "snapshot_cgroup cur dst len = (True, name_in_buffer s len)"
    if "leaf_node cur = Some node" and "name node = Some (CStr s)" for node s
    unfolding snapshot_cgroup_leaf [OF assms(1) that]
    using assms(2) by simp
  have c: "snapshot_cgroup cur dst len =
            (case parent node of
               None \<Rightarrow> (False, replicate len NUL)
             | Some parent_kn \<Rightarrow>
                 (case name parent_kn of
                    Some (CStr s) \<Rightarrow> (True, name_in_buffer s len)
                  | _ \<Rightarrow> (False, replicate len NUL)))"
    if "leaf_node cur = Some node" and "\<not> readable (name node)" for node
    unfolding snapshot_cgroup_parent [OF assms(1) that] memset0_full [OF assms(2)]
    using assms(2) by (simp split: option.splits kstr.splits)
  have d: "fst (snapshot_cgroup cur dst len) \<longleftrightarrow>
         (\<exists>node. leaf_node cur = Some node \<and>
            (readable (name node) \<or>
             (\<exists>parent_kn. parent node = Some parent_kn \<and> readable (name parent_kn))))"
  proof (cases "leaf_node cur")
    case None
    then show ?thesis using a by simp
  next
    case (Some node)
    show ?thesis
    proof (cases "readable (name node)")
      case True
      then obtain s where "name node = Some (CStr s)"
        by (cases "name node" rule: readable.cases) simp_all
      with b [OF Some] Some True show ?thesis by simp
    next
      case False
      have "fst (snapshot_cgroup cur dst len) \<longleftrightarrow>
              (\<exists>parent_kn. parent node = Some parent_kn \<and> readable (name parent_kn))"
        unfolding c [OF Some False]
        by (auto split: option.splits kstr.splits)
      with Some False show ?thesis by simp
    qed
  qed
  from a b c d show ?thesis by blast
qed

theorem snapshot_cgroup_resolution_witness:
  "snapshot_cgroup None (replicate 64 NUL) 64 = (False, replicate 64 NUL)
   \<and> snapshot_cgroup (Some web_task) (replicate 64 NUL) 64 = (True, ''web'' @ replicate 61 NUL)
   \<and> snapshot_cgroup (Some root_task) (replicate 64 NUL) 64 = (True, replicate 64 NUL)
   \<and> snapshot_cgroup (Some unnamed_leaf_task) (replicate 64 NUL) 64 =
       (True, ''system.slice'' @ replicate 52 NUL)"
proof -
  have l: "(0 :: nat) < 64" "length (replicate 64 NUL) = 64"
    by simp_all
  note r = snapshot_cgroup_resolution [OF l]
  have "leaf_node None = None"
    by (simp add: leaf_node_def)
  with r [of None] have 1: "snapshot_cgroup None (replicate 64 NUL) 64 = (False, replicate 64 NUL)"
    by blast
  have "leaf_node (Some web_task) =
          Some (Kernfs_node (Some (CStr ''web''))
                  (Some (Kernfs_node (Some (CStr ''system.slice'')) None)))"
    by (simp add: leaf_node_def web_task_def)
  with r [of "Some web_task"]
  have 2: "snapshot_cgroup (Some web_task) (replicate 64 NUL) 64 = (True, name_in_buffer ''web'' 64)"
    by simp
  have "leaf_node (Some root_task) =
          Some (Kernfs_node (Some (CStr ''''))
                  (Some (Kernfs_node (Some (CStr ''system.slice'')) None)))"
    by (simp add: leaf_node_def root_task_def)
  with r [of "Some root_task"]
  have 3: "snapshot_cgroup (Some root_task) (replicate 64 NUL) 64 = (True, name_in_buffer '''' 64)"
    by simp
  have "leaf_node (Some unnamed_leaf_task) =
          Some (Kernfs_node None (Some (Kernfs_node (Some (CStr ''system.slice'')) None)))"
    by (simp add: leaf_node_def unnamed_leaf_task_def)
  with r [of "Some unnamed_leaf_task"]
  have 4: "snapshot_cgroup (Some unnamed_leaf_task) (replicate 64 NUL) 64 =
             (True, name_in_buffer ''system.slice'' 64)"
    by simp
  show ?thesis
    using 1 2 3 4 by (simp add: name_in_buffer_def)
qed

lemma resolve_succeeded:
  "snapshot_cgroup (current_task K) buf 64 = (True, cg) \<Longrightarrow> resolve_or_placeholder K buf = cg"
  by (simp add: resolve_or_placeholder_def)

text \<open>
  Claim C10. When the node at the end of the chain exists and its name is the empty
  string, \<^const>\<open>snapshot_cgroup\<close> returns success and leaves the output buffer all
  null bytes: for every buffer, whatever it held before the call and whatever its
  length \<open>len > 0\<close>, and whatever the parent node is. A record created by such an event
  therefore has an empty group after a successful resolution, and the next event for
  the same key resolves again: the group it stores is what the resolver (or the
  placeholder) gives at that later event.
\<close>

theorem empty_leaf_name_succeeds_and_is_retried:
  assumes node: "leaf_node (current_task K) = Some node"
      and leaf: "name node = Some (CStr '''')"
      and key: "ucast (drop_bit 32 (current_pid_tgid K)) = k"
      and key': "ucast (drop_bit 32 (current_pid_tgid K')) = k"
      and nz: "k \<noteq> (0 :: u32)"
      and absent: "bpf_map_lookup_elem pf k = None"
      and room: "length (elems pf) < max_entries pf"
  shows "(\<forall>dst len. 0 < len \<and> length dst = len \<longrightarrow>
            snapshot_cgroup (current_task K) dst len = (True, replicate len NUL))
    \<and> bpf_map_lookup_elem (snd (record_fault K pf)) k =
          Some \<lparr>faults = 1, cgroup = replicate 64 NUL\<rparr>
    \<and> bpf_map_lookup_elem (snd (record_fault K' (snd (record_fault K pf)))) k =
          Some \<lparr>faults = 2, cgroup = resolve_or_placeholder K' (replicate 64 NUL)\<rparr>"
proof -
  have any: "snapshot_cgroup (current_task K) dst len = (True, replicate len NUL)"
    if "0 < len" and "length dst = len" for dst len
    unfolding snapshot_cgroup_leaf [OF that(1) node leaf]
    using that(2) by (simp add: name_in_buffer_empty)
  have s: "snapshot_cgroup (current_task K) (replicate 64 NUL) 64 = (True, replicate 64 NUL)"
    by (rule any) simp_all
  then have r: "resolve_or_placeholder K (replicate 64 NUL) = replicate 64 NUL"
    by (rule resolve_succeeded)
  have 1: "bpf_map_lookup_elem (snd (record_fault K pf)) k =
          Some \<lparr>faults = 1, cgroup = replicate 64 NUL\<rparr>"
    using key nz absent room r by (simp add: record_fault_maps lookup_update_elem)
  have z: "replicate 64 NUL ! 0 = NUL"
    by simp
  have 2: "bpf_map_lookup_elem (snd (record_fault K' (snd (record_fault K pf)))) k =
          Some \<lparr>faults = 2, cgroup = resolve_or_placeholder K' (replicate 64 NUL)\<rparr>"
    unfolding record_fault_maps [of K']
    using key' nz 1 z by (simp add: lookup_store_elem)
  from any have 0: "\<forall>dst len. 0 < len \<and> length dst = len \<longrightarrow>
            snapshot_cgroup (current_task K) dst len = (True, replicate len NUL)"
    by blast
  from 0 1 2 show ?thesis
    by (intro conjI)
qed

theorem empty_leaf_name_witness:
  "snapshot_cgroup (current_task K_root) (replicate 64 NUL) 64 = (True, replicate 64 NUL)
   \<and> snapshot_cgroup (current_task K_root) (''n/a'' @ replicate 61 (CHR ''x'')) 64 =
       (True, replicate 64 NUL)
   \<and> snapshot_cgroup (current_task K_root) ''stale'' 5 = (True, replicate 5 NUL)
   \<and> bpf_map_lookup_elem (snd (record_fault K_root (page_faults initial_maps))) 9 =
       Some \<lparr>faults = 1, cgroup = replicate 64 NUL\<rparr>
   \<and> bpf_map_lookup_elem
        (snd (record_fault K_web (snd (record_fault K_root (page_faults initial_maps))))) 9 =
       Some \<lparr>faults = 2, cgroup = ''web'' @ replicate 61 NUL\<rparr>"
proof -
  have node: "leaf_node (current_task K_root) =
          Some (Kernfs_node (Some (CStr ''''))
                  (Some (Kernfs_node (Some (CStr ''system.slice'')) None)))"
    by (simp add: leaf_node_def root_task_def K_root_def)
  have leaf: "name (Kernfs_node (Some (CStr ''''))
                  (Some (Kernfs_node (Some (CStr ''system.slice'')) None))) = Some (CStr '''')"
    by simp
  have key: "ucast (drop_bit 32 (current_pid_tgid K_root)) = (9 :: u32)"
    by (simp add: K_root_def)
  have key': "ucast (drop_bit 32 (current_pid_tgid K_web)) = (9 :: u32)"
    by (simp add: K_web_def)
  have nz: "(9 :: u32) \<noteq> 0"
    by simp
  have absent: "bpf_map_lookup_elem (page_faults initial_maps) 9 = None"
    by (simp add: initial_maps_def bpf_map_lookup_elem_def)
  have room: "length (elems (page_faults initial_maps)) < max_entries (page_faults initial_maps)"
    by (simp add: initial_maps_def)
  have "leaf_node (current_task K_web) =
          Some (Kernfs_node (Some (CStr ''web''))
                  (Some (Kernfs_node (Some (CStr ''system.slice'')) None)))"
    by (simp add: leaf_node_def web_task_def K_web_def)
  then have "snapshot_cgroup (current_task K_web) (replicate 64 NUL) 64 =
               (True, name_in_buffer ''web'' 64)"
    by (simp add: snapshot_cgroup_leaf)
  then have web: "resolve_or_placeholder K_web (replicate 64 NUL) = ''web'' @ replicate 61 NUL"
    by (simp add: resolve_succeeded name_in_buffer_def)
  note w = empty_leaf_name_succeeds_and_is_retried [OF node leaf key key' nz absent room]
  note any = w [THEN conjunct1, rule_format]
  have 1: "snapshot_cgroup (current_task K_root) (replicate 64 NUL) 64 = (True, replicate 64 NUL)"
    by (rule any) simp
  have 2: "snapshot_cgroup (current_task K_root) (''n/a'' @ replicate 61 (CHR ''x'')) 64 =
       (True, replicate 64 NUL)"
    by (rule any) simp
  have 3: "snapshot_cgroup (current_task K_root) ''stale'' 5 = (True, replicate 5 NUL)"
    by (rule any) simp
  have 4: "bpf_map_lookup_elem (snd (record_fault K_root (page_faults initial_maps))) 9 =
       Some \<lparr>faults = 1, cgroup = replicate 64 NUL\<rparr>"
    by (rule w [THEN conjunct2, THEN conjunct1])
  have 5: "bpf_map_lookup_elem
        (snd (record_fault K_web (snd (record_fault K_root (page_faults initial_maps))))) 9 =
       Some \<lparr>faults = 2, cgroup = ''web'' @ replicate 61 NUL\<rparr>"
    using w [THEN conjunct2, THEN conjunct2] web by simp
  from 1 2 3 4 5 show ?thesis
    by (intro conjI)
qed

section \<open>The per-CPU slot\<close>

text \<open>
  Claim C7. With the one-entry per-CPU array the program declares, the lookup of index
  0 never misses, and after the handler the slot of the CPU it ran on holds the next pid
  and the timestamp of the event: for every event, every next pid (0 included) and
  every content of the two hash maps, full or not.
\<close>

theorem sched_switch_always_updates_slot:
  assumes "pa_max_entries (cpu_state M) = 1"
  shows "percpu_lookup_elem (cpu_state M) (smp_processor_id K) 0 =
           Some (slots (cpu_state M) (smp_processor_id K) 0)
    \<and> percpu_lookup_elem (cpu_state (snd (handle_sched_switch K ctx M))) (smp_processor_id K) 0 =
           Some \<lparr>pid = next_pid ctx, ts = ktime_get_ns K\<rparr>
    \<and> pa_max_entries (cpu_state (snd (handle_sched_switch K ctx M))) = 1"
  using assms
  by (simp add: sched_switch_cpu_state) (simp add: percpu_lookup_elem_def percpu_store_elem_def)

theorem sched_switch_always_updates_slot_witness:
  "pa_max_entries (cpu_state (hotspot initial_maps)) = 1
   \<and> percpu_lookup_elem
        (cpu_state (snd (handle_sched_switch K_t100 \<lparr>prev_pid = 0, next_pid = 0\<rparr>
                           (hotspot initial_maps)))) 0 0 =
       Some \<lparr>pid = 0, ts = 100\<rparr>"
proof -
  have a: "pa_max_entries (cpu_state (hotspot initial_maps)) = 1"
    by (simp add: initial_maps_def)
  from sched_switch_always_updates_slot [OF a, of K_t100 "\<lparr>prev_pid = 0, next_pid = 0\<rparr>"] a
  show ?thesis
    by (simp add: K_t100_def)
qed

section \<open>Contention keys\<close>

lemma pair_key_victim: "ucast (drop_bit 32 (pair_key v a)) = v"
  unfolding pair_key_def
  by (rule bit_word_eqI) (auto simp add: bit_simps dest: bit_imp_le_length)

lemma pair_key_aggressor: "ucast (pair_key v a) = a"
  unfolding pair_key_def
  by (rule bit_word_eqI) (auto simp add: bit_simps dest: bit_imp_le_length)

lemma pair_key_inj: "pair_key v a = pair_key v' a' \<longleftrightarrow> v = v' \<and> a = a'"
  by (metis pair_key_victim pair_key_aggressor)

lemma pair_key_upper: "drop_bit 32 (pair_key v a) = ucast v"
  unfolding pair_key_def
  by (rule bit_word_eqI) (auto simp add: bit_simps dest: bit_imp_le_length)

lemma pair_key_lower: "take_bit 32 (pair_key v a) = ucast a"
  unfolding pair_key_def
  by (rule bit_word_eqI) (auto simp add: bit_simps dest: bit_imp_le_length)

lemma ucast_u32_u64_eq_0: "(ucast (v :: u32) :: u64) = 0 \<longleftrightarrow> v = 0"
  by (metis ucast_0 pair_key_aggressor pair_key_lower take_bit_of_0 pair_key_upper pair_key_victim drop_bit_of_0)

text \<open>
  Claim C5. A context-switch event whose victim and aggressor are both non-zero changes
  the contention map at the key \<^verbatim>\<open>(victim << 32) | aggressor\<close> and nowhere else: a
  count found there grows by 1; a missing key is inserted with count 1 (subject to the
  capacity rule of the map: the insert into a full map is dropped); every other key
  keeps its value. For distinct ids the reversed key is another key, so it is
  untouched: recording (5, 7) never increments the counter of (7, 5).
\<close>

theorem contention_is_directional:
  assumes slot: "pa_max_entries (cpu_state M) = 1"
      and victim: "prev_pid ctx = victim"
      and aggressor: "next_pid ctx = aggressor"
      and nz: "victim \<noteq> 0" "aggressor \<noteq> 0"
      and after: "C' = cpu_contention (snd (handle_sched_switch K ctx M))"
  shows "(\<forall>cnt. bpf_map_lookup_elem (cpu_contention M) (pair_key victim aggressor) = Some cnt \<longrightarrow>
            bpf_map_lookup_elem C' (pair_key victim aggressor) = Some (cnt + 1))
    \<and> (bpf_map_lookup_elem (cpu_contention M) (pair_key victim aggressor) = None \<longrightarrow>
            bpf_map_lookup_elem C' (pair_key victim aggressor) =
              (if length (elems (cpu_contention M)) < max_entries (cpu_contention M)
               then Some 1 else None))
    \<and> (\<forall>k. k \<noteq> pair_key victim aggressor \<longrightarrow>
            bpf_map_lookup_elem C' k = bpf_map_lookup_elem (cpu_contention M) k)
    \<and> (victim \<noteq> aggressor \<longrightarrow>
            pair_key aggressor victim \<noteq> pair_key victim aggressor
          \<and> bpf_map_lookup_elem C' (pair_key aggressor victim) =
              bpf_map_lookup_elem (cpu_contention M) (pair_key aggressor victim))"
proof -
  let ?p = "pair_key victim aggressor"
  have C': "C' = (case bpf_map_lookup_elem (cpu_contention M) ?p of
                    Some cnt \<Rightarrow> store_elem (cpu_contention M) ?p (cnt + 1)
                  | None \<Rightarrow> snd (bpf_map_update_elem (cpu_contention M) ?p 1))"
    using slot nz unfolding after victim [symmetric] aggressor [symmetric]
    by (simp add: sched_switch_cpu_contention)
  have a: "bpf_map_lookup_elem C' ?p = Some (cnt + 1)"
    if "bpf_map_lookup_elem (cpu_contention M) ?p = Some cnt" for cnt
    using that by (simp add: C' lookup_store_elem)
  have b: "bpf_map_lookup_elem C' ?p =
              (if length (elems (cpu_contention M)) < max_entries (cpu_contention M)
               then Some 1 else None)"
    if "bpf_map_lookup_elem (cpu_contention M) ?p = None"
    using that by (simp add: C' lookup_update_elem)
  have c: "bpf_map_lookup_elem C' k = bpf_map_lookup_elem (cpu_contention M) k"
    if "k \<noteq> ?p" for k
    using that
    by (cases "bpf_map_lookup_elem (cpu_contention M) ?p")
      (simp_all add: C' lookup_store_elem lookup_update_elem)
  have d: "pair_key aggressor victim \<noteq> ?p" if "victim \<noteq> aggressor"
    using that by (simp add: pair_key_inj)
  from a b c d show ?thesis
    by blast
qed

theorem contention_is_directional_witness:
  "bpf_map_lookup_elem (cpu_contention contended_maps) (pair_key 7 5) = Some 3
   \<and> bpf_map_lookup_elem (cpu_contention contended_maps) (pair_key 5 7) = None
   \<and> bpf_map_lookup_elem
        (cpu_contention (snd (handle_sched_switch K_t400 \<lparr>prev_pid = 5, next_pid = 7\<rparr>
                                contended_maps))) (pair_key 5 7) = Some 1
   \<and> bpf_map_lookup_elem
        (cpu_contention (snd (handle_sched_switch K_t400 \<lparr>prev_pid = 5, next_pid = 7\<rparr>
                                contended_maps))) (pair_key 7 5) = Some 3"
proof -
  have rev: "bpf_map_lookup_elem (cpu_contention contended_maps) (pair_key 7 5) = Some 3"
    by (simp add: contended_maps_def bpf_map_lookup_elem_def pair_key_def)
  have dir: "bpf_map_lookup_elem (cpu_contention contended_maps) (pair_key 5 7) = None"
    by (simp add: contended_maps_def bpf_map_lookup_elem_def pair_key_def)
  have room: "length (elems (cpu_contention contended_maps))
                < max_entries (cpu_contention contended_maps)"
    by (simp add: contended_maps_def)
  have slot: "pa_max_entries (cpu_state contended_maps) = 1"
    by (simp add: contended_maps_def)
  have ne: "(5 :: u32) \<noteq> 7" "(5 :: u32) \<noteq> 0" "(7 :: u32) \<noteq> 0"
    by simp_all
  from contention_is_directional
         [OF slot _ _ ne(2) ne(3) refl, of "\<lparr>prev_pid = 5, next_pid = 7\<rparr>" K_t400]
       rev dir room ne(1)
  show ?thesis
    by simp
qed

section \<open>Capacity\<close>

lemma update_elem_full:
  "bpf_map_lookup_elem m k = None \<Longrightarrow> max_entries m \<le> length (elems m) \<Longrightarrow>
   bpf_map_update_elem m k v = (- E2BIG, m)"
  by (simp add: bpf_map_update_elem_def bpf_map_lookup_elem_def)

text \<open>
  Claim C6. Both handlers return 0 in every case. For each of the three hash maps: when
  the key of the event is new and the map already holds \<^verbatim>\<open>max_entries\<close> elements,
  the map is left exactly as it was; when the key is present, its record is updated
  (time added, count incremented) whatever the number of elements in the map.
\<close>

theorem capacity_policy:
  fixes M :: hotspot_maps and pf :: "(u32, fault_stat) bpf_hash"
  assumes slot: "pa_max_entries (cpu_state M) = 1"
      and st: "st = slots (cpu_state M) (smp_processor_id K) 0"
      and pair: "pair = pair_key (prev_pid ctx) (next_pid ctx)"
      and key: "key = ucast (drop_bit 32 (current_pid_tgid K))"
  shows "fst (handle_sched_switch K ctx M) = 0 \<and> fst (record_fault K pf) = 0
    \<and> (pid st \<noteq> 0 \<and> bpf_map_lookup_elem (pid_stats M) (pid st) = None
           \<and> max_entries (pid_stats M) \<le> length (elems (pid_stats M)) \<longrightarrow>
         pid_stats (snd (handle_sched_switch K ctx M)) = pid_stats M)
    \<and> (prev_pid ctx \<noteq> 0 \<and> next_pid ctx \<noteq> 0
           \<and> bpf_map_lookup_elem (cpu_contention M) pair = None
           \<and> max_entries (cpu_contention M) \<le> length (elems (cpu_contention M)) \<longrightarrow>
         cpu_contention (snd (handle_sched_switch K ctx M)) = cpu_contention M)
    \<and> (key \<noteq> 0 \<and> bpf_map_lookup_elem pf key = None
           \<and> max_entries pf \<le> length (elems pf) \<longrightarrow>
         snd (record_fault K pf) = pf)
    \<and> (\<forall>ps. pid st \<noteq> 0 \<and> bpf_map_lookup_elem (pid_stats M) (pid st) = Some ps \<longrightarrow>
         map_option cpu_time_ns
           (bpf_map_lookup_elem (pid_stats (snd (handle_sched_switch K ctx M))) (pid st)) =
           Some (cpu_time_ns ps + (ktime_get_ns K - ts st)))
    \<and> (\<forall>cnt. prev_pid ctx \<noteq> 0 \<and> next_pid ctx \<noteq> 0
           \<and> bpf_map_lookup_elem (cpu_contention M) pair = Some cnt \<longrightarrow>
         bpf_map_lookup_elem (cpu_contention (snd (handle_sched_switch K ctx M))) pair =
           Some (cnt + 1))
    \<and> (\<forall>entry. key \<noteq> 0 \<and> bpf_map_lookup_elem pf key = Some entry \<longrightarrow>
         map_option faults (bpf_map_lookup_elem (snd (record_fault K pf)) key) =
           Some (faults entry + 1))"
proof -
  have ret1: "fst (handle_sched_switch K ctx M) = 0"
    by (simp add: sched_switch_ret)
  have ret2: "fst (record_fault K pf) = 0"
    by (simp add: record_fault_ret)
  have full1: "pid st \<noteq> 0 \<and> bpf_map_lookup_elem (pid_stats M) (pid st) = None
           \<and> max_entries (pid_stats M) \<le> length (elems (pid_stats M)) \<longrightarrow>
         pid_stats (snd (handle_sched_switch K ctx M)) = pid_stats M"
    using slot by (simp add: sched_switch_pid_stats st update_elem_full Let_def)
  have full2: "prev_pid ctx \<noteq> 0 \<and> next_pid ctx \<noteq> 0
           \<and> bpf_map_lookup_elem (cpu_contention M) pair = None
           \<and> max_entries (cpu_contention M) \<le> length (elems (cpu_contention M)) \<longrightarrow>
         cpu_contention (snd (handle_sched_switch K ctx M)) = cpu_contention M"
    using slot by (simp add: sched_switch_cpu_contention pair update_elem_full)
  have full3: "key \<noteq> 0 \<and> bpf_map_lookup_elem pf key = None
           \<and> max_entries pf \<le> length (elems pf) \<longrightarrow>
         snd (record_fault K pf) = pf"
    by (simp add: record_fault_maps key update_elem_full)
  have upd1: "\<forall>ps. pid st \<noteq> 0 \<and> bpf_map_lookup_elem (pid_stats M) (pid st) = Some ps \<longrightarrow>
         map_option cpu_time_ns
           (bpf_map_lookup_elem (pid_stats (snd (handle_sched_switch K ctx M))) (pid st)) =
           Some (cpu_time_ns ps + (ktime_get_ns K - ts st))"
    using slot by (simp add: sched_switch_pid_stats st lookup_store_elem Let_def)
  have upd2: "\<forall>cnt. prev_pid ctx \<noteq> 0 \<and> next_pid ctx \<noteq> 0
           \<and> bpf_map_lookup_elem (cpu_contention M) pair = Some cnt \<longrightarrow>
         bpf_map_lookup_elem (cpu_contention (snd (handle_sched_switch K ctx M))) pair =
           Some (cnt + 1)"
    using slot by (simp add: sched_switch_cpu_contention pair lookup_store_elem)
  have upd3: "\<forall>entry. key \<noteq> 0 \<and> bpf_map_lookup_elem pf key = Some entry \<longrightarrow>
         map_option faults (bpf_map_lookup_elem (snd (record_fault K pf)) key) =
           Some (faults entry + 1)"
    by (simp add: record_fault_maps key lookup_store_elem)
  show ?thesis
    by (intro conjI) fact+
qed

theorem capacity_policy_witness:
  "max_entries (pid_stats full_maps) \<le> length (elems (pid_stats full_maps))
   \<and> max_entries (cpu_contention full_maps) \<le> length (elems (cpu_contention full_maps))
   \<and> max_entries full_page_faults \<le> length (elems full_page_faults)
   \<and> fst (handle_sched_switch K_t400 \<lparr>prev_pid = 42, next_pid = 7\<rparr> full_maps) = 0
   \<and> pid_stats (snd (handle_sched_switch K_t400 \<lparr>prev_pid = 42, next_pid = 7\<rparr> full_maps)) =
       pid_stats full_maps
   \<and> cpu_contention (snd (handle_sched_switch K_t400 \<lparr>prev_pid = 42, next_pid = 7\<rparr> full_maps)) =
       cpu_contention full_maps
   \<and> record_fault K_web full_page_faults = (0, full_page_faults)
   \<and> map_option cpu_time_ns
        (bpf_map_lookup_elem
           (pid_stats (snd (handle_sched_switch K_t400 \<lparr>prev_pid = 7, next_pid = 5\<rparr>
                              full_maps_running_7))) 7) = Some 260
   \<and> bpf_map_lookup_elem
        (cpu_contention (snd (handle_sched_switch K_t400 \<lparr>prev_pid = 7, next_pid = 5\<rparr>
                                full_maps_running_7))) (pair_key 7 5) = Some 4
   \<and> map_option faults (bpf_map_lookup_elem (snd (record_fault K_t400 full_page_faults)) 5) =
       Some 5"
proof -
  let ?c1 = "\<lparr>prev_pid = 42, next_pid = 7\<rparr>" and ?c2 = "\<lparr>prev_pid = 7, next_pid = 5\<rparr>"
  have slot1: "pa_max_entries (cpu_state full_maps) = 1"
    by (simp add: full_maps_def)
  have slot2: "pa_max_entries (cpu_state full_maps_running_7) = 1"
    by (simp add: full_maps_running_7_def)
  have full: "max_entries (pid_stats full_maps) \<le> length (elems (pid_stats full_maps))"
    "max_entries (cpu_contention full_maps) \<le> length (elems (cpu_contention full_maps))"
    "max_entries full_page_faults \<le> length (elems full_page_faults)"
    by (simp_all add: full_maps_def full_page_faults_def)
  have absent: "bpf_map_lookup_elem (pid_stats full_maps) 42 = None"
    "bpf_map_lookup_elem (cpu_contention full_maps) (pair_key 42 7) = None"
    "bpf_map_lookup_elem full_page_faults 9 = None"
    by (simp_all add: full_maps_def full_page_faults_def bpf_map_lookup_elem_def pair_key_def)
  have present: "bpf_map_lookup_elem (pid_stats full_maps_running_7) 7 =
        Some \<lparr>cpu_time_ns = 10, comm = ''sh'' @ replicate 14 NUL,
              cgroup = ''n/a'' @ replicate 61 NUL\<rparr>"
    "bpf_map_lookup_elem (cpu_contention full_maps_running_7) (pair_key 7 5) = Some 3"
    "bpf_map_lookup_elem full_page_faults 5 =
        Some \<lparr>faults = 4, cgroup = ''n/a'' @ replicate 61 NUL\<rparr>"
    by (simp_all add: full_maps_running_7_def full_maps_def full_page_faults_def
          bpf_map_lookup_elem_def pair_key_def)
  have keys: "ucast (drop_bit 32 (current_pid_tgid K_web)) = (9 :: u32)"
    "ucast (drop_bit 32 (current_pid_tgid K_t400)) = (5 :: u32)"
    by (simp_all add: K_web_def K_t400_def)
  have st1: "slots (cpu_state full_maps) (smp_processor_id K_t400) 0 = \<lparr>pid = 42, ts = 150\<rparr>"
    by (simp add: full_maps_def)
  have st2: "slots (cpu_state full_maps_running_7) (smp_processor_id K_t400) 0 =
               \<lparr>pid = 7, ts = 150\<rparr>"
    by (simp add: full_maps_running_7_def)
  have t: "ktime_get_ns K_t400 = 400"
    by (simp add: K_t400_def)
  note w1 = capacity_policy [OF slot1 refl refl refl, of K_t400 ?c1 full_page_faults]
  note w2 = capacity_policy [OF slot1 refl refl refl, of K_web ?c1 full_page_faults]
  note w3 = capacity_policy [OF slot2 refl refl refl, of K_t400 ?c2 full_page_faults]
  have a: "fst (handle_sched_switch K_t400 ?c1 full_maps) = 0"
    "pid_stats (snd (handle_sched_switch K_t400 ?c1 full_maps)) = pid_stats full_maps"
    "cpu_contention (snd (handle_sched_switch K_t400 ?c1 full_maps)) = cpu_contention full_maps"
    using w1 full absent by (simp_all add: st1)
  have b: "record_fault K_web full_page_faults = (0, full_page_faults)"
    using w2 full absent keys by (simp add: prod_eq_iff)
  have c: "map_option cpu_time_ns
        (bpf_map_lookup_elem
           (pid_stats (snd (handle_sched_switch K_t400 ?c2 full_maps_running_7))) 7) = Some 260"
    "bpf_map_lookup_elem
        (cpu_contention (snd (handle_sched_switch K_t400 ?c2 full_maps_running_7)))
        (pair_key 7 5) = Some 4"
    "map_option faults (bpf_map_lookup_elem (snd (record_fault K_t400 full_page_faults)) 5) =
       Some 5"
    using w3 present keys by (simp_all add: st2 t)
  show ?thesis
    by (intro conjI) fact+
qed

section \<open>Keys\<close>

lemma sched_switch_no_slot:
  "pa_max_entries (cpu_state M) = 0 \<Longrightarrow> handle_sched_switch K ctx M = (0, M)"
  by (simp add: handle_sched_switch_def percpu_lookup_elem_def)

lemma lookup_upsert:
  "bpf_map_lookup_elem (upsert m k v f) k' =
     (if k' = k then
        (case bpf_map_lookup_elem m k of
           Some x \<Rightarrow> Some (f x)
         | None \<Rightarrow> if length (elems m) < max_entries m then Some v else None)
      else bpf_map_lookup_elem m k')"
  by (cases "bpf_map_lookup_elem m k")
    (auto simp add: upsert_def lookup_store_elem lookup_update_elem)

lemma keys_upsert: "fst ` set (elems (upsert m k v f)) \<subseteq> insert k (fst ` set (elems m))"
  using keys_update_elem [of m k v]
  by (cases "bpf_map_lookup_elem m k") (simp_all add: upsert_def keys_store_elem)

lemma max_entries_upsert: "max_entries (upsert m k v f) = max_entries m"
  by (cases "bpf_map_lookup_elem m k")
    (simp_all add: upsert_def max_entries_store_elem max_entries_update_elem)

lemma pid_stats_step:
  "0 < pa_max_entries (cpu_state M) \<Longrightarrow>
   pid_stats (snd (handle_sched_switch K ctx M)) =
     (if pid (slots (cpu_state M) (smp_processor_id K) 0) = 0 then pid_stats M
      else upsert (pid_stats M) (pid (slots (cpu_state M) (smp_processor_id K) 0))
             (new_pid_stat K (ktime_get_ns K - ts (slots (cpu_state M) (smp_processor_id K) 0)))
             (touch_pid_stat K
                (ktime_get_ns K - ts (slots (cpu_state M) (smp_processor_id K) 0))))"
  by (simp add: sched_switch_pid_stats Let_def upsert_def new_pid_stat_def touch_pid_stat_def
        split: option.splits)

lemma cpu_contention_step:
  "0 < pa_max_entries (cpu_state M) \<Longrightarrow>
   cpu_contention (snd (handle_sched_switch K ctx M)) =
     (if prev_pid ctx \<noteq> 0 \<and> next_pid ctx \<noteq> 0
      then upsert (cpu_contention M) (pair_key (prev_pid ctx) (next_pid ctx)) 1 (\<lambda>cnt. cnt + 1)
      else cpu_contention M)"
  by (simp add: sched_switch_cpu_contention upsert_def split: option.splits)

lemma page_faults_step:
  "snd (record_fault K pf) =
     (if ucast (drop_bit 32 (current_pid_tgid K)) = (0 :: u32) then pf
      else upsert pf (ucast (drop_bit 32 (current_pid_tgid K)))
             (new_fault_stat K) (touch_fault_stat K))"
  by (simp add: record_fault_maps Let_def upsert_def new_fault_stat_def touch_fault_stat_def
        split: option.splits)

lemma subset_insert_good: "A \<subseteq> insert k B \<Longrightarrow> P k \<Longrightarrow> A \<subseteq> B \<union> {k. P k}"
  by blast

lemma keys_pid_stats_step:
  "fst ` set (elems (pid_stats (snd (handle_sched_switch K ctx M)))) \<subseteq>
     fst ` set (elems (pid_stats M)) \<union> {k. k \<noteq> 0}"
proof (cases "pa_max_entries (cpu_state M) = 0")
  case True
  then show ?thesis by (simp add: sched_switch_no_slot)
next
  case False
  then have slot: "0 < pa_max_entries (cpu_state M)" by simp
  let ?st = "slots (cpu_state M) (smp_processor_id K) 0"
  show ?thesis
  proof (cases "pid ?st = 0")
    case True
    then show ?thesis by (simp add: pid_stats_step [OF slot])
  next
    case False
    then have eq: "pid_stats (snd (handle_sched_switch K ctx M)) =
        upsert (pid_stats M) (pid ?st)
              (new_pid_stat K (ktime_get_ns K - ts ?st))
              (touch_pid_stat K (ktime_get_ns K - ts ?st))"
      by (simp add: pid_stats_step [OF slot])
    show ?thesis
      unfolding eq by (rule subset_insert_good [OF keys_upsert]) (rule False)
  qed
qed

lemma keys_cpu_contention_step:
  "fst ` set (elems (cpu_contention (snd (handle_sched_switch K ctx M)))) \<subseteq>
     fst ` set (elems (cpu_contention M)) \<union> {k. drop_bit 32 k \<noteq> 0 \<and> take_bit 32 k \<noteq> 0}"
proof (cases "pa_max_entries (cpu_state M) = 0")
  case True
  then show ?thesis by (simp add: sched_switch_no_slot)
next
  case False
  then have slot: "0 < pa_max_entries (cpu_state M)" by simp
  let ?p = "pair_key (prev_pid ctx) (next_pid ctx)"
  show ?thesis
  proof (cases "prev_pid ctx \<noteq> 0 \<and> next_pid ctx \<noteq> 0")
    case False
    then have "cpu_contention (snd (handle_sched_switch K ctx M)) = cpu_contention M"
      by (auto simp add: cpu_contention_step [OF slot])
    then show ?thesis by simp
  next
    case True
    then have good: "drop_bit 32 ?p \<noteq> 0 \<and> take_bit 32 ?p \<noteq> 0"
      by (simp add: pair_key_upper pair_key_lower ucast_u32_u64_eq_0)
    from True have eq: "cpu_contention (snd (handle_sched_switch K ctx M)) =
        upsert (cpu_contention M) ?p 1 (\<lambda>cnt. cnt + 1)"
      by (simp add: cpu_contention_step [OF slot])
    show ?thesis
      unfolding eq by (rule subset_insert_good [OF keys_upsert]) (rule good)
  qed
qed

lemma keys_page_faults_step:
  "fst ` set (elems (snd (record_fault K pf))) \<subseteq> fst ` set (elems pf) \<union> {k. k \<noteq> 0}"
proof (cases "ucast (drop_bit 32 (current_pid_tgid K)) = (0 :: u32)")
  case True
  then show ?thesis by (simp add: page_faults_step)
next
  case False
  then have eq: "snd (record_fault K pf) =
      upsert pf (ucast (drop_bit 32 (current_pid_tgid K))) (new_fault_stat K) (touch_fault_stat K)"
    by (simp add: page_faults_step)
  show ?thesis
    unfolding eq by (rule subset_insert_good [OF keys_upsert]) (rule False)
qed

lemma hotspot_deliver_fault: "hotspot (deliver S (Mm_fault K)) = hotspot S"
  by simp

lemma page_faults_deliver_switch: "page_faults (deliver S (Sched_switch K ctx)) = page_faults S"
  by simp

lemma hotspot_deliver_switch:
  "hotspot (deliver S (Sched_switch K ctx)) = snd (handle_sched_switch K ctx (hotspot S))"
  by simp

lemma keys_deliver:
  "fst ` set (elems (pid_stats (hotspot (deliver S e)))) \<subseteq>
     fst ` set (elems (pid_stats (hotspot S))) \<union> {k. k \<noteq> 0}"
  "fst ` set (elems (page_faults (deliver S e))) \<subseteq>
     fst ` set (elems (page_faults S)) \<union> {k. k \<noteq> 0}"
  "fst ` set (elems (cpu_contention (hotspot (deliver S e)))) \<subseteq>
     fst ` set (elems (cpu_contention (hotspot S)))
       \<union> {k. drop_bit 32 k \<noteq> 0 \<and> take_bit 32 k \<noteq> 0}"
proof -
  show "fst ` set (elems (pid_stats (hotspot (deliver S e)))) \<subseteq>
     fst ` set (elems (pid_stats (hotspot S))) \<union> {k. k \<noteq> 0}"
    using keys_pid_stats_step by (cases e) auto
  show "fst ` set (elems (page_faults (deliver S e))) \<subseteq>
     fst ` set (elems (page_faults S)) \<union> {k. k \<noteq> 0}"
    using keys_page_faults_step by (cases e) (auto simp add: handle_mm_fault_kprobe_def)
  show "fst ` set (elems (cpu_contention (hotspot (deliver S e)))) \<subseteq>
     fst ` set (elems (cpu_contention (hotspot S)))
       \<union> {k. drop_bit 32 k \<noteq> 0 \<and> take_bit 32 k \<noteq> 0}"
    using keys_cpu_contention_step by (cases e) auto
qed

lemma keys_run:
  "fst ` set (elems (pid_stats (hotspot (run S evs)))) \<subseteq>
     fst ` set (elems (pid_stats (hotspot S))) \<union> {k. k \<noteq> 0}"
  "fst ` set (elems (page_faults (run S evs))) \<subseteq>
     fst ` set (elems (page_faults S)) \<union> {k. k \<noteq> 0}"
  "fst ` set (elems (cpu_contention (hotspot (run S evs)))) \<subseteq>
     fst ` set (elems (cpu_contention (hotspot S)))
       \<union> {k. drop_bit 32 k \<noteq> 0 \<and> take_bit 32 k \<noteq> 0}"
proof (induction evs rule: rev_induct)
  case Nil
  {
    case 1 show ?case by (simp add: run_Nil)
  next
    case 2 show ?case by (simp add: run_Nil)
  next
    case 3 show ?case by (simp add: run_Nil)
  }
next
  case (snoc e evs)
  {
    case 1 show ?case
      using snoc(1) keys_deliver(1) [of "run S evs" e] unfolding run_snoc by blast
  next
    case 2 show ?case
      using snoc(2) keys_deliver(2) [of "run S evs" e] unfolding run_snoc by blast
  next
    case 3 show ?case
      using snoc(3) keys_deliver(3) [of "run S evs" e] unfolding run_snoc by blast
  }
qed

text \<open>
  Claim C2. Over every sequence of events, from every state of the maps: key 0 is in
  \<^verbatim>\<open>pid_stats\<close> or \<^verbatim>\<open>page_faults\<close> afterwards only if it was there before, and
  every key of \<^verbatim>\<open>cpu_contention\<close> that was not there before has non-zero upper and
  lower 32 bits. From the freshly loaded maps, therefore, 0 is never a key of the first
  two maps and both halves of every contention key are non-zero.
\<close>

theorem zero_is_never_inserted:
  "(0 \<in> fst ` set (elems (pid_stats (hotspot (run S evs)))) \<longrightarrow>
      0 \<in> fst ` set (elems (pid_stats (hotspot S))))
   \<and> (0 \<in> fst ` set (elems (page_faults (run S evs))) \<longrightarrow>
      0 \<in> fst ` set (elems (page_faults S)))
   \<and> (\<forall>k \<in> fst ` set (elems (cpu_contention (hotspot (run S evs)))).
        k \<in> fst ` set (elems (cpu_contention (hotspot S)))
        \<or> (drop_bit 32 k \<noteq> 0 \<and> take_bit 32 k \<noteq> 0))
   \<and> 0 \<notin> fst ` set (elems (pid_stats (hotspot (run initial_maps evs))))
   \<and> 0 \<notin> fst ` set (elems (page_faults (run initial_maps evs)))
   \<and> (\<forall>k \<in> fst ` set (elems (cpu_contention (hotspot (run initial_maps evs)))).
        drop_bit 32 k \<noteq> 0 \<and> take_bit 32 k \<noteq> 0)"
proof -
  have zero: "A \<subseteq> B \<union> {k. k \<noteq> 0} \<Longrightarrow> (0 :: u32) \<in> A \<longrightarrow> 0 \<in> B" for A B
    by blast
  have zero': "A \<subseteq> {} \<union> {k. k \<noteq> 0} \<Longrightarrow> (0 :: u32) \<notin> A" for A
    by blast
  have halves: "A \<subseteq> B \<union> {k. P k} \<Longrightarrow> \<forall>k \<in> A. k \<in> B \<or> P k" for A B :: "u64 set" and P
    by blast
  have halves': "A \<subseteq> {} \<union> {k. P k} \<Longrightarrow> \<forall>k \<in> A. P k" for A :: "u64 set" and P
    by blast
  have init: "fst ` set (elems (pid_stats (hotspot initial_maps))) = {}"
    "fst ` set (elems (page_faults initial_maps)) = {}"
    "fst ` set (elems (cpu_contention (hotspot initial_maps))) = {}"
    by (simp_all add: initial_maps_def)
  have 1: "0 \<in> fst ` set (elems (pid_stats (hotspot (run S evs)))) \<longrightarrow>
      0 \<in> fst ` set (elems (pid_stats (hotspot S)))"
    by (rule zero [OF keys_run(1)])
  have 2: "0 \<in> fst ` set (elems (page_faults (run S evs))) \<longrightarrow>
      0 \<in> fst ` set (elems (page_faults S))"
    by (rule zero [OF keys_run(2)])
  have 3: "\<forall>k \<in> fst ` set (elems (cpu_contention (hotspot (run S evs)))).
        k \<in> fst ` set (elems (cpu_contention (hotspot S)))
        \<or> (drop_bit 32 k \<noteq> 0 \<and> take_bit 32 k \<noteq> 0)"
    by (rule halves [OF keys_run(3)])
  have 4: "0 \<notin> fst ` set (elems (pid_stats (hotspot (run initial_maps evs))))"
    using keys_run(1) [of initial_maps evs] unfolding init by (rule zero')
  have 5: "0 \<notin> fst ` set (elems (page_faults (run initial_maps evs)))"
    using keys_run(2) [of initial_maps evs] unfolding init by (rule zero')
  have 6: "\<forall>k \<in> fst ` set (elems (cpu_contention (hotspot (run initial_maps evs)))).
        drop_bit 32 k \<noteq> 0 \<and> take_bit 32 k \<noteq> 0"
    using keys_run(3) [of initial_maps evs] unfolding init by (rule halves')
  show ?thesis
    by (intro conjI) fact+
qed

lemma scenario_A_keys:
  "map fst (elems (pid_stats (hotspot (run initial_maps (scenario_A @ [Mm_fault K_web]))))) = [42]"
  "map fst (elems (page_faults (run initial_maps (scenario_A @ [Mm_fault K_web])))) = [9]"
  "map fst (elems (cpu_contention (hotspot (run initial_maps (scenario_A @ [Mm_fault K_web])))))
     = [0x2A00000007]"
  by code_simp+

theorem zero_is_never_inserted_witness:
  "42 \<in> fst ` set (elems (pid_stats (hotspot (run initial_maps (scenario_A @ [Mm_fault K_web])))))
   \<and> 0 \<notin> fst ` set (elems (pid_stats (hotspot (run initial_maps (scenario_A @ [Mm_fault K_web])))))
   \<and> 9 \<in> fst ` set (elems (page_faults (run initial_maps (scenario_A @ [Mm_fault K_web]))))
   \<and> 0 \<notin> fst ` set (elems (page_faults (run initial_maps (scenario_A @ [Mm_fault K_web]))))
   \<and> 0x2A00000007 \<in>
        fst ` set (elems (cpu_contention (hotspot (run initial_maps (scenario_A @ [Mm_fault K_web])))))
   \<and> drop_bit 32 (0x2A00000007 :: u64) \<noteq> 0 \<and> take_bit 32 (0x2A00000007 :: u64) \<noteq> 0"
proof -
  let ?S = "run initial_maps (scenario_A @ [Mm_fault K_web])"
  have a1: "42 \<in> fst ` set (elems (pid_stats (hotspot ?S)))"
    using scenario_A_keys(1) by (simp flip: set_map)
  have a2: "9 \<in> fst ` set (elems (page_faults ?S))"
    using scenario_A_keys(2) by (simp flip: set_map)
  have a3: "0x2A00000007 \<in> fst ` set (elems (cpu_contention (hotspot ?S)))"
    using scenario_A_keys(3) by (simp flip: set_map)
  note z = zero_is_never_inserted [of initial_maps "scenario_A @ [Mm_fault K_web]"]
  note z4 = z [THEN conjunct2, THEN conjunct2, THEN conjunct2, THEN conjunct1]
  note z5 = z [THEN conjunct2, THEN conjunct2, THEN conjunct2, THEN conjunct2, THEN conjunct1]
  note z6 = z [THEN conjunct2, THEN conjunct2, THEN conjunct2, THEN conjunct2, THEN conjunct2]
  note c = bspec [OF z6 a3]
  show ?thesis
    using a1 z4 a2 z5 a3 c by (intro conjI) (simp_all only: simp_thms)
qed

section \<open>Frozen fields\<close>

lemma lookup_pid_stats_step:
  assumes slot: "0 < pa_max_entries (cpu_state M)"
      and r: "bpf_map_lookup_elem (pid_stats M) k = Some r"
  shows "bpf_map_lookup_elem (pid_stats (snd (handle_sched_switch K ctx M))) k =
     Some (if pid (slots (cpu_state M) (smp_processor_id K) 0) = k \<and> k \<noteq> 0
           then touch_pid_stat K
                  (ktime_get_ns K - ts (slots (cpu_state M) (smp_processor_id K) 0)) r
           else r)"
  using r by (auto simp add: pid_stats_step [OF slot] lookup_upsert)

lemma lookup_page_faults_step:
  assumes r: "bpf_map_lookup_elem pf k = Some r"
  shows "bpf_map_lookup_elem (snd (record_fault K pf)) k =
     Some (if ucast (drop_bit 32 (current_pid_tgid K)) = k \<and> k \<noteq> 0
           then touch_fault_stat K r else r)"
  using r by (auto simp add: page_faults_step lookup_upsert)

lemma stat_group_switch:
  assumes slot: "0 < pa_max_entries (cpu_state (hotspot S))"
      and g: "stat_group S k = Some g"
  shows "stat_group (deliver S (Sched_switch K ctx)) k =
     Some (if k = pid (slots (cpu_state (hotspot S)) (smp_processor_id K) 0) \<and> k \<noteq> 0
              \<and> g ! 0 = NUL
           then resolve_or_placeholder K g else g)"
proof -
  from g obtain r where r: "bpf_map_lookup_elem (pid_stats (hotspot S)) k = Some r"
    and gr: "pid_stat.cgroup r = g"
    by (auto simp add: stat_group_def)
  show ?thesis
    using gr by (auto simp add: stat_group_def lookup_pid_stats_step [OF slot r] touch_pid_stat_def)
qed

lemma stat_name_switch:
  assumes slot: "0 < pa_max_entries (cpu_state (hotspot S))"
      and n: "stat_name S k = Some n"
  shows "stat_name (deliver S (Sched_switch K ctx)) k =
     Some (if k = pid (slots (cpu_state (hotspot S)) (smp_processor_id K) 0) \<and> k \<noteq> 0
              \<and> n ! 0 = NUL
           then bpf_get_current_comm (current_comm K) n 16 else n)"
proof -
  from n obtain r where r: "bpf_map_lookup_elem (pid_stats (hotspot S)) k = Some r"
    and nr: "comm r = n"
    by (auto simp add: stat_name_def)
  show ?thesis
    using nr by (auto simp add: stat_name_def lookup_pid_stats_step [OF slot r] touch_pid_stat_def)
qed

lemma fault_group_fault:
  assumes g: "fault_group S k = Some g"
  shows "fault_group (deliver S (Mm_fault K)) k =
     Some (if k = ucast (drop_bit 32 (current_pid_tgid K)) \<and> k \<noteq> 0 \<and> g ! 0 = NUL
           then resolve_or_placeholder K g else g)"
proof -
  from g obtain r where r: "bpf_map_lookup_elem (page_faults S) k = Some r"
    and gr: "fault_stat.cgroup r = g"
    by (auto simp add: fault_group_def)
  show ?thesis
    using gr
    by (auto simp add: fault_group_def handle_mm_fault_kprobe_def lookup_page_faults_step [OF r]
          touch_fault_stat_def)
qed

lemma frozen_step:
  "stat_group S k = Some g \<Longrightarrow> g ! 0 \<noteq> NUL \<Longrightarrow> stat_group (deliver S e) k = Some g"
  "stat_name S k = Some n \<Longrightarrow> n ! 0 \<noteq> NUL \<Longrightarrow> stat_name (deliver S e) k = Some n"
  "fault_group S k = Some h \<Longrightarrow> h ! 0 \<noteq> NUL \<Longrightarrow> fault_group (deliver S e) k = Some h"
proof -
  show "stat_group (deliver S e) k = Some g" if "stat_group S k = Some g" "g ! 0 \<noteq> NUL"
  proof (cases e)
    case (Sched_switch K ctx)
    show ?thesis
    proof (cases "pa_max_entries (cpu_state (hotspot S)) = 0")
      case True
      with that Sched_switch show ?thesis
        by (simp add: stat_group_def sched_switch_no_slot)
    next
      case False
      then have "0 < pa_max_entries (cpu_state (hotspot S))" by simp
      from stat_group_switch [OF this that(1)] that(2) Sched_switch show ?thesis by simp
    qed
  next
    case (Mm_fault K)
    with that show ?thesis by (simp add: stat_group_def)
  qed
  show "stat_name (deliver S e) k = Some n" if "stat_name S k = Some n" "n ! 0 \<noteq> NUL"
  proof (cases e)
    case (Sched_switch K ctx)
    show ?thesis
    proof (cases "pa_max_entries (cpu_state (hotspot S)) = 0")
      case True
      with that Sched_switch show ?thesis
        by (simp add: stat_name_def sched_switch_no_slot)
    next
      case False
      then have "0 < pa_max_entries (cpu_state (hotspot S))" by simp
      from stat_name_switch [OF this that(1)] that(2) Sched_switch show ?thesis by simp
    qed
  next
    case (Mm_fault K)
    with that show ?thesis by (simp add: stat_name_def)
  qed
  show "fault_group (deliver S e) k = Some h" if "fault_group S k = Some h" "h ! 0 \<noteq> NUL"
  proof (cases e)
    case (Sched_switch K ctx)
    with that show ?thesis by (simp add: fault_group_def)
  next
    case (Mm_fault K)
    from fault_group_fault [OF that(1)] that(2) Mm_fault show ?thesis by simp
  qed
qed

lemma frozen_run:
  "stat_group S k = Some g \<Longrightarrow> g ! 0 \<noteq> NUL \<Longrightarrow> stat_group (run S evs) k = Some g"
  "stat_name S k = Some n \<Longrightarrow> n ! 0 \<noteq> NUL \<Longrightarrow> stat_name (run S evs) k = Some n"
  "fault_group S k = Some h \<Longrightarrow> h ! 0 \<noteq> NUL \<Longrightarrow> fault_group (run S evs) k = Some h"
  by (induction evs rule: rev_induct) (simp_all add: run_Nil run_snoc frozen_step)

text \<open>
  Claim C3. For every key and every sequence of events: a group or a name whose first
  byte is not null (the placeholder included) is the same after the sequence, in
  \<^verbatim>\<open>pid_stats\<close> and in \<^verbatim>\<open>page_faults\<close>. And at a single event the stored field is
  replaced by a new resolution (or a new name) exactly when the event is for that key
  and the field is still empty; otherwise it is left as it is.
\<close>

theorem filled_fields_are_frozen:
  "(\<forall>g. stat_group S k = Some g \<and> g ! 0 \<noteq> NUL \<longrightarrow> stat_group (run S evs) k = Some g)
   \<and> (\<forall>n. stat_name S k = Some n \<and> n ! 0 \<noteq> NUL \<longrightarrow> stat_name (run S evs) k = Some n)
   \<and> (\<forall>g. fault_group S k = Some g \<and> g ! 0 \<noteq> NUL \<longrightarrow> fault_group (run S evs) k = Some g)
   \<and> (\<forall>g. stat_group S k = Some g \<and> pa_max_entries (cpu_state (hotspot S)) = 1 \<longrightarrow>
         stat_group (deliver S (Sched_switch K ctx)) k =
           Some (if k = pid (slots (cpu_state (hotspot S)) (smp_processor_id K) 0) \<and> k \<noteq> 0
                    \<and> g ! 0 = NUL
                 then resolve_or_placeholder K g else g))
   \<and> (\<forall>n. stat_name S k = Some n \<and> pa_max_entries (cpu_state (hotspot S)) = 1 \<longrightarrow>
         stat_name (deliver S (Sched_switch K ctx)) k =
           Some (if k = pid (slots (cpu_state (hotspot S)) (smp_processor_id K) 0) \<and> k \<noteq> 0
                    \<and> n ! 0 = NUL
                 then bpf_get_current_comm (current_comm K) n 16 else n))
   \<and> (\<forall>g. fault_group S k = Some g \<longrightarrow>
         fault_group (deliver S (Mm_fault K)) k =
           Some (if k = ucast (drop_bit 32 (current_pid_tgid K)) \<and> k \<noteq> 0 \<and> g ! 0 = NUL
                 then resolve_or_placeholder K g else g))"
proof -
  have 1: "\<forall>g. stat_group S k = Some g \<and> g ! 0 \<noteq> NUL \<longrightarrow> stat_group (run S evs) k = Some g"
    by (simp add: frozen_run(1))
  have 2: "\<forall>n. stat_name S k = Some n \<and> n ! 0 \<noteq> NUL \<longrightarrow> stat_name (run S evs) k = Some n"
    by (simp add: frozen_run(2))
  have 3: "\<forall>g. fault_group S k = Some g \<and> g ! 0 \<noteq> NUL \<longrightarrow> fault_group (run S evs) k = Some g"
    by (simp add: frozen_run(3))
  have 4: "\<forall>g. stat_group S k = Some g \<and> pa_max_entries (cpu_state (hotspot S)) = 1 \<longrightarrow>
         stat_group (deliver S (Sched_switch K ctx)) k =
           Some (if k = pid (slots (cpu_state (hotspot S)) (smp_processor_id K) 0) \<and> k \<noteq> 0
                    \<and> g ! 0 = NUL
                 then resolve_or_placeholder K g else g)"
    using stat_group_switch [of S k _ K ctx] by simp
  have 5: "\<forall>n. stat_name S k = Some n \<and> pa_max_entries (cpu_state (hotspot S)) = 1 \<longrightarrow>
         stat_name (deliver S (Sched_switch K ctx)) k =
           Some (if k = pid (slots (cpu_state (hotspot S)) (smp_processor_id K) 0) \<and> k \<noteq> 0
                    \<and> n ! 0 = NUL
                 then bpf_get_current_comm (current_comm K) n 16 else n)"
    using stat_name_switch [of S k _ K ctx] by simp
  have 6: "\<forall>g. fault_group S k = Some g \<longrightarrow>
         fault_group (deliver S (Mm_fault K)) k =
           Some (if k = ucast (drop_bit 32 (current_pid_tgid K)) \<and> k \<noteq> 0 \<and> g ! 0 = NUL
                 then resolve_or_placeholder K g else g)"
    using fault_group_fault [of S k _ K] by simp
  show ?thesis
    by (intro conjI) fact+
qed

lemma resolve_web: "resolve_or_placeholder K_t400 (replicate 64 NUL) = ''web'' @ replicate 61 NUL"
proof -
  have "leaf_node (current_task K_t400) =
          Some (Kernfs_node (Some (CStr ''web''))
                  (Some (Kernfs_node (Some (CStr ''system.slice'')) None)))"
    by (simp add: leaf_node_def web_task_def K_t400_def)
  then have "snapshot_cgroup (current_task K_t400) (replicate 64 NUL) 64 =
               (True, name_in_buffer ''web'' 64)"
    by (simp add: snapshot_cgroup_leaf)
  then show ?thesis
    by (simp add: resolve_succeeded name_in_buffer_def)
qed

theorem filled_fields_are_frozen_witness:
  "stat_group frozen_state 7 = Some (''n/a'' @ replicate 61 NUL)
   \<and> stat_group (run frozen_state
         [Sched_switch K_t400 \<lparr>prev_pid = 7, next_pid = 5\<rparr>, Mm_fault K_t400]) 7 =
       Some (''n/a'' @ replicate 61 NUL)
   \<and> stat_name (run frozen_state
         [Sched_switch K_t400 \<lparr>prev_pid = 7, next_pid = 5\<rparr>, Mm_fault K_t400]) 7 =
       Some (''sh'' @ replicate 14 NUL)
   \<and> fault_group (run frozen_state
         [Sched_switch K_t400 \<lparr>prev_pid = 7, next_pid = 5\<rparr>, Mm_fault K_t400]) 5 =
       Some (''n/a'' @ replicate 61 NUL)
   \<and> stat_group unresolved_state 7 = Some (replicate 64 NUL)
   \<and> stat_group (deliver unresolved_state
         (Sched_switch K_t400 \<lparr>prev_pid = 7, next_pid = 5\<rparr>)) 7 =
       Some (''web'' @ replicate 61 NUL)
   \<and> stat_name (deliver unresolved_state
         (Sched_switch K_t400 \<lparr>prev_pid = 7, next_pid = 5\<rparr>)) 7 =
       Some (''nginx'' @ replicate 11 NUL)
   \<and> fault_group (deliver unresolved_state (Mm_fault K_t400)) 5 =
       Some (''web'' @ replicate 61 NUL)"
proof -
  let ?evs = "[Sched_switch K_t400 \<lparr>prev_pid = 7, next_pid = 5\<rparr>, Mm_fault K_t400]"
  let ?c = "\<lparr>prev_pid = 7, next_pid = 5\<rparr>"
  have f: "stat_group frozen_state 7 = Some (''n/a'' @ replicate 61 NUL)"
    "stat_name frozen_state 7 = Some (''sh'' @ replicate 14 NUL)"
    "fault_group frozen_state 5 = Some (''n/a'' @ replicate 61 NUL)"
    by (simp_all add: stat_group_def stat_name_def fault_group_def frozen_state_def
          full_maps_running_7_def full_maps_def full_page_faults_def bpf_map_lookup_elem_def)
  have u: "stat_group unresolved_state 7 = Some (replicate 64 NUL)"
    "stat_name unresolved_state 7 = Some (replicate 16 NUL)"
    "fault_group unresolved_state 5 = Some (replicate 64 NUL)"
    "pa_max_entries (cpu_state (hotspot unresolved_state)) = 1"
    "pid (slots (cpu_state (hotspot unresolved_state)) (smp_processor_id K_t400) 0) = 7"
    by (simp_all add: stat_group_def stat_name_def fault_group_def unresolved_state_def
          bpf_map_lookup_elem_def)
  have k: "ucast (drop_bit 32 (current_pid_tgid K_t400)) = (5 :: u32)"
    by (simp add: K_t400_def)
  have nm: "bpf_get_current_comm (current_comm K_t400) (replicate 16 NUL) 16 =
              ''nginx'' @ replicate 11 NUL"
    by (simp add: bpf_get_current_comm_def K_t400_def)
  note w7 = filled_fields_are_frozen [of frozen_state 7 ?evs]
  note w5 = filled_fields_are_frozen [of frozen_state 5 ?evs]
  note v7 = filled_fields_are_frozen [of unresolved_state 7 _ K_t400 ?c]
  note v5 = filled_fields_are_frozen [of unresolved_state 5 _ K_t400]
  have 1: "stat_group (run frozen_state ?evs) 7 = Some (''n/a'' @ replicate 61 NUL)"
    using w7 [THEN conjunct1] f(1) by simp
  have 2: "stat_name (run frozen_state ?evs) 7 = Some (''sh'' @ replicate 14 NUL)"
    using w7 [THEN conjunct2, THEN conjunct1] f(2) by simp
  have 3: "fault_group (run frozen_state ?evs) 5 = Some (''n/a'' @ replicate 61 NUL)"
    using w5 [THEN conjunct2, THEN conjunct2, THEN conjunct1] f(3) by simp
  have 4: "stat_group (deliver unresolved_state (Sched_switch K_t400 ?c)) 7 =
       Some (''web'' @ replicate 61 NUL)"
    using v7 [THEN conjunct2, THEN conjunct2, THEN conjunct2, THEN conjunct1] u(1,4,5) resolve_web
    by simp
  have 5: "stat_name (deliver unresolved_state (Sched_switch K_t400 ?c)) 7 =
       Some (''nginx'' @ replicate 11 NUL)"
    using v7 [THEN conjunct2, THEN conjunct2, THEN conjunct2, THEN conjunct2, THEN conjunct1]
      u(2,4,5) nm
    by simp
  have 6: "fault_group (deliver unresolved_state (Mm_fault K_t400)) 5 =
       Some (''web'' @ replicate 61 NUL)"
    using v5 [THEN conjunct2, THEN conjunct2, THEN conjunct2, THEN conjunct2, THEN conjunct2]
      u(3) k resolve_web
    by simp
  show ?thesis
    using f(1) 1 2 3 u(1) 4 5 6 by (intro conjI)
qed

section \<open>Accumulated CPU time\<close>

lemma cpu_time_step:
  assumes x: "x \<noteq> 0"
      and slot: "0 < pa_max_entries (cpu_state (hotspot S))"
      and room: "length (elems (pid_stats (hotspot S))) < max_entries (pid_stats (hotspot S))"
  shows "cpu_time (deliver S (Sched_switch K ctx)) x =
           cpu_time S x +
           (if pid (slots (cpu_state (hotspot S)) (smp_processor_id K) 0) = x
            then ktime_get_ns K - ts (slots (cpu_state (hotspot S)) (smp_processor_id K) 0)
            else 0)"
  using x room
  by (auto simp add: cpu_time_def pid_stats_step [OF slot] lookup_upsert new_pid_stat_def
        touch_pid_stat_def split: option.splits)

lemma slot_step:
  assumes slot: "pa_max_entries (cpu_state (hotspot S)) = 1"
  shows "slots (cpu_state (hotspot (deliver S (Sched_switch K ctx)))) (smp_processor_id K) 0 =
           \<lparr>pid = next_pid ctx, ts = ktime_get_ns K\<rparr>"
    and "pa_max_entries (cpu_state (hotspot (deliver S (Sched_switch K ctx)))) = 1"
  using slot by (simp_all add: sched_switch_cpu_state percpu_store_elem_def)

lemma interval_sum_Cons:
  "interval_sum x ((t, p) # l) =
     (case l of [] \<Rightarrow> 0
      | (t', p') # rest \<Rightarrow> (if p = x then t' - t else 0) + interval_sum x l)"
  by (cases l) auto

lemma cpu_time_run:
  assumes x: "x \<noteq> 0"
  shows "pa_max_entries (cpu_state (hotspot S)) = 1 \<Longrightarrow>
         \<forall>(K, ctx) \<in> set sw. smp_processor_id K = c \<Longrightarrow>
         never_saturates S (switches sw) \<Longrightarrow>
         cpu_time (run S (switches sw)) x =
           cpu_time S x +
           interval_sum x ((ts (slots (cpu_state (hotspot S)) c 0),
                            pid (slots (cpu_state (hotspot S)) c 0)) # map stamp sw)"
proof (induction sw arbitrary: S)
  case Nil
  then show ?case by (simp add: switches_def run_Nil)
next
  case (Cons a sw)
  obtain K ctx where a: "a = (K, ctx)" by (cases a)
  let ?S' = "deliver S (Sched_switch K ctx)"
  from Cons.prems(2) a have c: "smp_processor_id K = c"
    and rest: "\<forall>(K, ctx) \<in> set sw. smp_processor_id K = c"
    by auto
  from Cons.prems(3) a
  have room: "length (elems (pid_stats (hotspot S))) < max_entries (pid_stats (hotspot S))"
    and sat: "never_saturates ?S' (switches sw)"
    by (simp_all add: switches_def)
  from Cons.prems(1) have slot: "0 < pa_max_entries (cpu_state (hotspot S))" by simp
  have IH: "cpu_time (run ?S' (switches sw)) x =
           cpu_time ?S' x +
           interval_sum x ((ts (slots (cpu_state (hotspot ?S')) c 0),
                            pid (slots (cpu_state (hotspot ?S')) c 0)) # map stamp sw)"
    by (rule Cons.IH [OF slot_step(2) [OF Cons.prems(1)] rest sat])
  have st': "slots (cpu_state (hotspot ?S')) c 0 = \<lparr>pid = next_pid ctx, ts = ktime_get_ns K\<rparr>"
    using slot_step(1) [OF Cons.prems(1), of K ctx] c by simp
  have run: "run S (switches (a # sw)) = run ?S' (switches sw)"
    by (simp add: a switches_def run_Cons)
  show ?case
    unfolding run IH st' cpu_time_step [OF x slot room, of K ctx] c
    by (simp add: a stamp_def)
qed

lemma interval_sum_from_zero: "x \<noteq> 0 \<Longrightarrow> interval_sum x ((0, 0) # l) = interval_sum x l"
  by (cases l) auto

text \<open>
  Claim C1. Let context-switch events be delivered on one CPU \<open>c\<close>, with the table
  \<^verbatim>\<open>pid_stats\<close> never saturated. For every pid \<open>x \<noteq> 0\<close> the time accumulated for
  \<open>x\<close> grows by the sum of \<open>ts\<^sub>i\<^sub>+\<^sub>1 - ts\<^sub>i\<close> over exactly the intervals between
  consecutive events during which \<open>x\<close> was the pid stored in the slot of \<open>c\<close> (the
  first interval starts at the slot's content before the sequence). From the freshly
  loaded maps the accumulated time is that sum over the events alone.
\<close>

theorem cpu_time_is_sum_of_outgoing_intervals:
  assumes x: "x \<noteq> 0"
      and slot: "pa_max_entries (cpu_state (hotspot S)) = 1"
      and unit: "\<forall>(K, ctx) \<in> set sw. smp_processor_id K = c"
      and room: "never_saturates S (switches sw)"
  shows "cpu_time (run S (switches sw)) x =
           cpu_time S x +
           interval_sum x ((ts (slots (cpu_state (hotspot S)) c 0),
                            pid (slots (cpu_state (hotspot S)) c 0)) # map stamp sw)
    \<and> (S = initial_maps \<longrightarrow>
           cpu_time (run S (switches sw)) x = interval_sum x (map stamp sw))"
proof -
  have general: "cpu_time (run S (switches sw)) x =
           cpu_time S x +
           interval_sum x ((ts (slots (cpu_state (hotspot S)) c 0),
                            pid (slots (cpu_state (hotspot S)) c 0)) # map stamp sw)"
    by (rule cpu_time_run [OF x slot unit room])
  have init: "cpu_time initial_maps x = 0"
    "slots (cpu_state (hotspot initial_maps)) c 0 = \<lparr>pid = 0, ts = 0\<rparr>"
    by (simp_all add: cpu_time_def initial_maps_def bpf_map_lookup_elem_def)
  have "cpu_time (run S (switches sw)) x = interval_sum x (map stamp sw)" if "S = initial_maps"
    using general x unfolding that init by (simp add: interval_sum_from_zero)
  then have "S = initial_maps \<longrightarrow>
           cpu_time (run S (switches sw)) x = interval_sum x (map stamp sw)"
    by (rule impI)
  with general show ?thesis
    by (rule conjI)
qed

lemma scenario_A_never_saturates: "never_saturates initial_maps (switches scenario_A_switches)"
  by code_simp

theorem cpu_time_scenario_A_witness:
  "(42 :: u32) \<noteq> 0
   \<and> pa_max_entries (cpu_state (hotspot initial_maps)) = 1
   \<and> map (smp_processor_id \<circ> fst) scenario_A_switches = [0, 0, 0]
   \<and> never_saturates initial_maps (switches scenario_A_switches)
   \<and> map stamp scenario_A_switches = [(100, 0), (150, 42), (400, 7)]
   \<and> cpu_time (run initial_maps (switches scenario_A_switches)) 42 = 250
   \<and> cpu_time (run initial_maps (switches scenario_A_switches)) 7 = 0"
proof -
  have x: "(42 :: u32) \<noteq> 0" "(7 :: u32) \<noteq> 0"
    by simp_all
  have slot: "pa_max_entries (cpu_state (hotspot initial_maps)) = 1"
    by (simp add: initial_maps_def)
  have cpus: "map (smp_processor_id \<circ> fst) scenario_A_switches = [0, 0, 0]"
    by (simp add: scenario_A_switches_def K_t100_def K_t150_def K_t400_def)
  then have unit: "\<forall>(K, ctx) \<in> set scenario_A_switches. smp_processor_id K = 0"
    by (simp add: scenario_A_switches_def)
  have stamps: "map stamp scenario_A_switches = [(100, 0), (150, 42), (400, 7)]"
    by (simp add: scenario_A_switches_def stamp_def K_t100_def K_t150_def K_t400_def)
  note room = scenario_A_never_saturates
  have 1: "cpu_time (run initial_maps (switches scenario_A_switches)) 42 = 250"
    using cpu_time_is_sum_of_outgoing_intervals [OF x(1) slot unit room, THEN conjunct2]
    by (simp add: stamps)
  have 2: "cpu_time (run initial_maps (switches scenario_A_switches)) 7 = 0"
    using cpu_time_is_sum_of_outgoing_intervals [OF x(2) slot unit room, THEN conjunct2]
    by (simp add: stamps)
  show ?thesis
    using x(1) slot cpus room stamps 1 2 by (intro conjI)
qed

section \<open>Upserts from two CPUs\<close>

lemma record_fault_rest_maps:
  "snd (record_fault_rest K found pf) =
     (if found then
        (case bpf_map_lookup_elem pf (ucast (drop_bit 32 (current_pid_tgid K))) of
           Some e \<Rightarrow> store_elem pf (ucast (drop_bit 32 (current_pid_tgid K))) (touch_fault_stat K e)
         | None \<Rightarrow> pf)
      else snd (bpf_map_update_elem pf (ucast (drop_bit 32 (current_pid_tgid K)))
                  (new_fault_stat K)))"
  by (simp add: record_fault_rest_def resolve_or_placeholder_def touch_fault_stat_def
        new_fault_stat_def Let_def split: option.splits prod.splits)

lemma record_fault_in_two_steps:
  "snd (record_fault K pf) =
     (if ucast (drop_bit 32 (current_pid_tgid K)) = (0 :: u32) then pf
      else snd (record_fault_rest K
                  (bpf_map_lookup_elem pf (ucast (drop_bit 32 (current_pid_tgid K))) \<noteq> None) pf))"
  by (auto simp add: page_faults_step record_fault_rest_maps upsert_def split: option.splits)

lemma fault_thread_alone:
  "fault_step (fst (fault_step (Entered K) pf)) (snd (fault_step (Entered K) pf)) =
     (Returned, snd (record_fault K pf))"
  by (simp add: record_fault_in_two_steps Let_def)

lemma faults_after_one:
  assumes k: "ucast (drop_bit 32 (current_pid_tgid K)) = k"
      and nz: "k \<noteq> (0 :: u32)"
      and room: "bpf_map_lookup_elem pf k \<noteq> None \<or> length (elems pf) < max_entries pf"
  shows "\<exists>r. bpf_map_lookup_elem (snd (record_fault K pf)) k = Some r
           \<and> faults r = (case bpf_map_lookup_elem pf k of None \<Rightarrow> 1 | Some e \<Rightarrow> faults e + 1)"
  using k nz room
  by (auto simp add: page_faults_step lookup_upsert new_fault_stat_def touch_fault_stat_def
        split: option.splits)

lemma faults_after_two:
  assumes k1: "ucast (drop_bit 32 (current_pid_tgid K1)) = k"
      and k2: "ucast (drop_bit 32 (current_pid_tgid K2)) = k"
      and nz: "k \<noteq> (0 :: u32)"
      and room: "bpf_map_lookup_elem pf k \<noteq> None \<or> length (elems pf) < max_entries pf"
  shows "map_option faults
           (bpf_map_lookup_elem (snd (record_fault K2 (snd (record_fault K1 pf)))) k) =
         Some (case bpf_map_lookup_elem pf k of None \<Rightarrow> 2 | Some e \<Rightarrow> faults e + 2)"
proof -
  from faults_after_one [OF k1 nz room]
  obtain r where r: "bpf_map_lookup_elem (snd (record_fault K1 pf)) k = Some r"
    and f: "faults r = (case bpf_map_lookup_elem pf k of None \<Rightarrow> 1 | Some e \<Rightarrow> faults e + 1)"
    by blast
  show ?thesis
    using k2 nz f
    by (simp add: lookup_page_faults_step [OF r] touch_fault_stat_def split: option.splits)
qed

lemma run_apart:
  "interleave [Cpu0, Cpu0, Cpu1, Cpu1] (Entered K1, Entered K2, pf) =
     (Returned, Returned, snd (record_fault K2 (snd (record_fault K1 pf))))"
  "interleave [Cpu1, Cpu1, Cpu0, Cpu0] (Entered K1, Entered K2, pf) =
     (Returned, Returned, snd (record_fault K1 (snd (record_fault K2 pf))))"
  by (simp_all add: record_fault_in_two_steps Let_def)

lemma both_miss_then_both_insert:
  assumes k1: "ucast (drop_bit 32 (current_pid_tgid K1)) = k"
      and k2: "ucast (drop_bit 32 (current_pid_tgid K2)) = k"
      and nz: "k \<noteq> (0 :: u32)"
      and absent: "bpf_map_lookup_elem pf k = None"
      and room: "length (elems pf) < max_entries pf"
  shows "bpf_map_lookup_elem
           (snd (record_fault_rest K2 False (snd (record_fault_rest K1 False pf)))) k =
         Some (new_fault_stat K2)"
  using k1 k2 absent room
  by (simp add: record_fault_rest_maps lookup_update_elem)

lemma overlap_loses_one:
  assumes k1: "ucast (drop_bit 32 (current_pid_tgid K1)) = k"
      and k2: "ucast (drop_bit 32 (current_pid_tgid K2)) = k"
      and nz: "k \<noteq> (0 :: u32)"
      and absent: "bpf_map_lookup_elem pf k = None"
      and room: "length (elems pf) < max_entries pf"
  shows "map_option faults (bpf_map_lookup_elem
           (snd (snd (interleave [Cpu0, Cpu1, Cpu0, Cpu1] (Entered K1, Entered K2, pf)))) k) = Some 1"
    and "map_option faults (bpf_map_lookup_elem
           (snd (snd (interleave [Cpu1, Cpu0, Cpu0, Cpu1] (Entered K1, Entered K2, pf)))) k) = Some 1"
    and "map_option faults (bpf_map_lookup_elem
           (snd (snd (interleave [Cpu0, Cpu1, Cpu1, Cpu0] (Entered K1, Entered K2, pf)))) k) = Some 1"
    and "map_option faults (bpf_map_lookup_elem
           (snd (snd (interleave [Cpu1, Cpu0, Cpu1, Cpu0] (Entered K1, Entered K2, pf)))) k) = Some 1"
  using both_miss_then_both_insert [OF k1 k2 nz absent room]
        both_miss_then_both_insert [OF k2 k1 nz absent room] k1 k2 nz absent
  by (simp_all add: Let_def new_fault_stat_def)

lemma pa_max_entries_step:
  "pa_max_entries (cpu_state M) = 1 \<Longrightarrow>
   pa_max_entries (cpu_state (snd (handle_sched_switch K ctx M))) = 1"
  by (simp add: sched_switch_cpu_state percpu_store_elem_def)

lemma other_slot_step:
  "pa_max_entries (cpu_state M) = 1 \<Longrightarrow> c \<noteq> smp_processor_id K \<Longrightarrow>
   slots (cpu_state (snd (handle_sched_switch K ctx M))) c = slots (cpu_state M) c"
  by (simp add: sched_switch_cpu_state percpu_store_elem_def)

lemma contention_after_one:
  assumes slot: "pa_max_entries (cpu_state M) = 1"
      and nz: "prev_pid ctx \<noteq> 0" "next_pid ctx \<noteq> 0"
      and room: "bpf_map_lookup_elem (cpu_contention M) (pair_key (prev_pid ctx) (next_pid ctx)) \<noteq> None
                 \<or> length (elems (cpu_contention M)) < max_entries (cpu_contention M)"
  shows "bpf_map_lookup_elem (cpu_contention (snd (handle_sched_switch K ctx M)))
           (pair_key (prev_pid ctx) (next_pid ctx)) =
         Some (case bpf_map_lookup_elem (cpu_contention M) (pair_key (prev_pid ctx) (next_pid ctx))
               of None \<Rightarrow> 1 | Some cnt \<Rightarrow> cnt + 1)"
proof -
  from slot have "0 < pa_max_entries (cpu_state M)" by simp
  from cpu_contention_step [OF this] nz room show ?thesis
    by (auto simp add: lookup_upsert split: option.splits)
qed

lemma contention_after_two:
  assumes slot: "pa_max_entries (cpu_state M) = 1"
      and nz: "prev_pid ctx \<noteq> 0" "next_pid ctx \<noteq> 0"
      and room: "bpf_map_lookup_elem (cpu_contention M) (pair_key (prev_pid ctx) (next_pid ctx)) \<noteq> None
                 \<or> length (elems (cpu_contention M)) < max_entries (cpu_contention M)"
  shows "bpf_map_lookup_elem
           (cpu_contention (snd (handle_sched_switch K2 ctx (snd (handle_sched_switch K1 ctx M)))))
           (pair_key (prev_pid ctx) (next_pid ctx)) =
         Some (case bpf_map_lookup_elem (cpu_contention M) (pair_key (prev_pid ctx) (next_pid ctx))
               of None \<Rightarrow> 2 | Some cnt \<Rightarrow> cnt + 2)"
proof -
  let ?M1 = "snd (handle_sched_switch K1 ctx M)"
  let ?p = "pair_key (prev_pid ctx) (next_pid ctx)"
  have one: "bpf_map_lookup_elem (cpu_contention ?M1) ?p =
         Some (case bpf_map_lookup_elem (cpu_contention M) ?p of None \<Rightarrow> 1 | Some cnt \<Rightarrow> cnt + 1)"
    by (rule contention_after_one [OF slot nz room])
  then have room1: "bpf_map_lookup_elem (cpu_contention ?M1) ?p \<noteq> None
                 \<or> length (elems (cpu_contention ?M1)) < max_entries (cpu_contention ?M1)"
    by simp
  show ?thesis
    unfolding contention_after_one [OF pa_max_entries_step [OF slot] nz room1] one
    by (simp split: option.splits)
qed

lemma cpu_time_ns_after_one:
  assumes slot: "pa_max_entries (cpu_state M) = 1"
      and x: "pid (slots (cpu_state M) (smp_processor_id K) 0) = x" "x \<noteq> 0"
      and room: "bpf_map_lookup_elem (pid_stats M) x \<noteq> None
                 \<or> length (elems (pid_stats M)) < max_entries (pid_stats M)"
  shows "\<exists>r. bpf_map_lookup_elem (pid_stats (snd (handle_sched_switch K ctx M))) x = Some r
           \<and> cpu_time_ns r =
               (case bpf_map_lookup_elem (pid_stats M) x of None \<Rightarrow> 0 | Some ps \<Rightarrow> cpu_time_ns ps)
               + (ktime_get_ns K - ts (slots (cpu_state M) (smp_processor_id K) 0))"
proof -
  from slot have "0 < pa_max_entries (cpu_state M)" by simp
  from pid_stats_step [OF this] x room show ?thesis
    by (auto simp add: lookup_upsert new_pid_stat_def touch_pid_stat_def split: option.splits)
qed

lemma cpu_time_ns_after_two:
  assumes slot: "pa_max_entries (cpu_state M) = 1"
      and cpus: "smp_processor_id K1 \<noteq> smp_processor_id K2"
      and x1: "pid (slots (cpu_state M) (smp_processor_id K1) 0) = x"
      and x2: "pid (slots (cpu_state M) (smp_processor_id K2) 0) = x"
      and nz: "x \<noteq> 0"
      and room: "bpf_map_lookup_elem (pid_stats M) x \<noteq> None
                 \<or> length (elems (pid_stats M)) < max_entries (pid_stats M)"
  shows "map_option cpu_time_ns
           (bpf_map_lookup_elem
              (pid_stats (snd (handle_sched_switch K2 ctx2 (snd (handle_sched_switch K1 ctx1 M)))))
              x) =
         Some ((case bpf_map_lookup_elem (pid_stats M) x of None \<Rightarrow> 0 | Some ps \<Rightarrow> cpu_time_ns ps)
               + (ktime_get_ns K1 - ts (slots (cpu_state M) (smp_processor_id K1) 0))
               + (ktime_get_ns K2 - ts (slots (cpu_state M) (smp_processor_id K2) 0)))"
proof -
  let ?M1 = "snd (handle_sched_switch K1 ctx1 M)"
  from cpu_time_ns_after_one [OF slot x1 nz room, of ctx1]
  obtain r where r: "bpf_map_lookup_elem (pid_stats ?M1) x = Some r"
    and t: "cpu_time_ns r =
               (case bpf_map_lookup_elem (pid_stats M) x of None \<Rightarrow> 0 | Some ps \<Rightarrow> cpu_time_ns ps)
               + (ktime_get_ns K1 - ts (slots (cpu_state M) (smp_processor_id K1) 0))"
    by blast
  have same: "slots (cpu_state ?M1) (smp_processor_id K2) = slots (cpu_state M) (smp_processor_id K2)"
    using cpus by (simp add: other_slot_step [OF slot])
  have slot1: "pa_max_entries (cpu_state ?M1) = 1"
    by (rule pa_max_entries_step [OF slot])
  have x2': "pid (slots (cpu_state ?M1) (smp_processor_id K2) 0) = x"
    using x2 by (simp add: same)
  have room1: "bpf_map_lookup_elem (pid_stats ?M1) x \<noteq> None
                 \<or> length (elems (pid_stats ?M1)) < max_entries (pid_stats ?M1)"
    using r by simp
  from cpu_time_ns_after_one [OF slot1 x2' nz room1, of ctx2]
  show ?thesis
    using r t by (auto simp add: same)
qed

text \<open>
  Claim C9, as stated, fails. Two threads of process 9 fault on two CPUs while the
  process has no record yet. Both handlers look the key up before either inserts; both
  miss; both insert a record with count 1. Both handlers have returned, two increments
  were issued, and the count is 1.
\<close>

theorem overlapping_upserts_counterexample:
  "fst (interleave [Cpu0, Cpu1, Cpu0, Cpu1]
          (Entered K_web, Entered K_t450_cpu1, page_faults initial_maps)) = Returned
   \<and> fst (snd (interleave [Cpu0, Cpu1, Cpu0, Cpu1]
          (Entered K_web, Entered K_t450_cpu1, page_faults initial_maps))) = Returned
   \<and> ucast (drop_bit 32 (current_pid_tgid K_web)) = (9 :: u32)
   \<and> ucast (drop_bit 32 (current_pid_tgid K_t450_cpu1)) = (9 :: u32)
   \<and> map_option faults (bpf_map_lookup_elem
        (snd (snd (interleave [Cpu0, Cpu1, Cpu0, Cpu1]
          (Entered K_web, Entered K_t450_cpu1, page_faults initial_maps)))) 9) = Some 1"
proof -
  have k1: "ucast (drop_bit 32 (current_pid_tgid K_web)) = (9 :: u32)"
    by (simp add: K_web_def)
  have k2: "ucast (drop_bit 32 (current_pid_tgid K_t450_cpu1)) = (9 :: u32)"
    by (simp add: K_t450_cpu1_def)
  have nz: "(9 :: u32) \<noteq> 0"
    by simp
  have absent: "bpf_map_lookup_elem (page_faults initial_maps) 9 = None"
    by (simp add: initial_maps_def bpf_map_lookup_elem_def)
  have room: "length (elems (page_faults initial_maps)) < max_entries (page_faults initial_maps)"
    by (simp add: initial_maps_def)
  have returned: "fst (interleave [Cpu0, Cpu1, Cpu0, Cpu1]
          (Entered K_web, Entered K_t450_cpu1, page_faults initial_maps)) = Returned"
    "fst (snd (interleave [Cpu0, Cpu1, Cpu0, Cpu1]
          (Entered K_web, Entered K_t450_cpu1, page_faults initial_maps))) = Returned"
    using k1 k2 by (simp_all add: Let_def)
  from returned k1 k2 overlap_loses_one(1) [OF k1 k2 nz absent room] show ?thesis
    by (intro conjI)
qed

text \<open>
  Claim C9, amended. The handlers use no atomic read-modify-write: the lookup and the
  following insert or increment are separate steps. Two upserts of one key that do not
  overlap (one handler returns before the other starts) lose nothing: the interleaved
  run is then the one handler after the other, and with room for a new key the fault
  count grows by 2, the contention count grows by 2, and the accumulated time of a pid
  stored on two different CPUs grows by both intervals. Two page-fault handlers for a
  new key that overlap, so that both lookups miss before either insert, leave the
  count at 1: the later insert overwrites the earlier.
\<close>

theorem upserts_apart_keep_every_increment:
  assumes k1: "ucast (drop_bit 32 (current_pid_tgid K1)) = k"
      and k2: "ucast (drop_bit 32 (current_pid_tgid K2)) = k"
      and nz: "k \<noteq> (0 :: u32)"
  shows "interleave [Cpu0, Cpu0, Cpu1, Cpu1] (Entered K1, Entered K2, pf) =
           (Returned, Returned, snd (record_fault K2 (snd (record_fault K1 pf))))
    \<and> interleave [Cpu1, Cpu1, Cpu0, Cpu0] (Entered K1, Entered K2, pf) =
           (Returned, Returned, snd (record_fault K1 (snd (record_fault K2 pf))))
    \<and> (bpf_map_lookup_elem pf k \<noteq> None \<or> length (elems pf) < max_entries pf \<longrightarrow>
          map_option faults
            (bpf_map_lookup_elem (snd (record_fault K2 (snd (record_fault K1 pf)))) k) =
          Some (case bpf_map_lookup_elem pf k of None \<Rightarrow> 2 | Some e \<Rightarrow> faults e + 2))
    \<and> (\<forall>M ctx Ka Kb.
          pa_max_entries (cpu_state M) = 1 \<and> prev_pid ctx \<noteq> 0 \<and> next_pid ctx \<noteq> 0
          \<and> (bpf_map_lookup_elem (cpu_contention M) (pair_key (prev_pid ctx) (next_pid ctx)) \<noteq> None
               \<or> length (elems (cpu_contention M)) < max_entries (cpu_contention M)) \<longrightarrow>
          bpf_map_lookup_elem
            (cpu_contention (snd (handle_sched_switch Kb ctx (snd (handle_sched_switch Ka ctx M)))))
            (pair_key (prev_pid ctx) (next_pid ctx)) =
          Some (case bpf_map_lookup_elem (cpu_contention M)
                       (pair_key (prev_pid ctx) (next_pid ctx))
                of None \<Rightarrow> 2 | Some cnt \<Rightarrow> cnt + 2))
    \<and> (\<forall>M x Ka Kb ctxa ctxb.
          pa_max_entries (cpu_state M) = 1 \<and> smp_processor_id Ka \<noteq> smp_processor_id Kb
          \<and> pid (slots (cpu_state M) (smp_processor_id Ka) 0) = x
          \<and> pid (slots (cpu_state M) (smp_processor_id Kb) 0) = x \<and> x \<noteq> 0
          \<and> (bpf_map_lookup_elem (pid_stats M) x \<noteq> None
               \<or> length (elems (pid_stats M)) < max_entries (pid_stats M)) \<longrightarrow>
          map_option cpu_time_ns
            (bpf_map_lookup_elem
               (pid_stats (snd (handle_sched_switch Kb ctxb (snd (handle_sched_switch Ka ctxa M)))))
               x) =
          Some ((case bpf_map_lookup_elem (pid_stats M) x of
                   None \<Rightarrow> 0 | Some ps \<Rightarrow> cpu_time_ns ps)
                + (ktime_get_ns Ka - ts (slots (cpu_state M) (smp_processor_id Ka) 0))
                + (ktime_get_ns Kb - ts (slots (cpu_state M) (smp_processor_id Kb) 0))))
    \<and> (bpf_map_lookup_elem pf k = None \<and> length (elems pf) < max_entries pf \<longrightarrow>
          (\<forall>sched \<in> {[Cpu0, Cpu1, Cpu0, Cpu1], [Cpu0, Cpu1, Cpu1, Cpu0],
                        [Cpu1, Cpu0, Cpu0, Cpu1], [Cpu1, Cpu0, Cpu1, Cpu0]}.
             map_option faults (bpf_map_lookup_elem
               (snd (snd (interleave sched (Entered K1, Entered K2, pf)))) k) = Some 1))"
proof -
  note apart = run_apart [of K1 K2 pf]
  have faults2: "bpf_map_lookup_elem pf k \<noteq> None \<or> length (elems pf) < max_entries pf \<longrightarrow>
          map_option faults
            (bpf_map_lookup_elem (snd (record_fault K2 (snd (record_fault K1 pf)))) k) =
          Some (case bpf_map_lookup_elem pf k of None \<Rightarrow> 2 | Some e \<Rightarrow> faults e + 2)"
    using faults_after_two [OF k1 k2 nz] by blast
  have contention2: "\<forall>M ctx Ka Kb.
          pa_max_entries (cpu_state M) = 1 \<and> prev_pid ctx \<noteq> 0 \<and> next_pid ctx \<noteq> 0
          \<and> (bpf_map_lookup_elem (cpu_contention M) (pair_key (prev_pid ctx) (next_pid ctx)) \<noteq> None
               \<or> length (elems (cpu_contention M)) < max_entries (cpu_contention M)) \<longrightarrow>
          bpf_map_lookup_elem
            (cpu_contention (snd (handle_sched_switch Kb ctx (snd (handle_sched_switch Ka ctx M)))))
            (pair_key (prev_pid ctx) (next_pid ctx)) =
          Some (case bpf_map_lookup_elem (cpu_contention M)
                       (pair_key (prev_pid ctx) (next_pid ctx))
                of None \<Rightarrow> 2 | Some cnt \<Rightarrow> cnt + 2)"
    using contention_after_two by blast
  have time2: "\<forall>M x Ka Kb ctxa ctxb.
          pa_max_entries (cpu_state M) = 1 \<and> smp_processor_id Ka \<noteq> smp_processor_id Kb
          \<and> pid (slots (cpu_state M) (smp_processor_id Ka) 0) = x
          \<and> pid (slots (cpu_state M) (smp_processor_id Kb) 0) = x \<and> x \<noteq> 0
          \<and> (bpf_map_lookup_elem (pid_stats M) x \<noteq> None
               \<or> length (elems (pid_stats M)) < max_entries (pid_stats M)) \<longrightarrow>
          map_option cpu_time_ns
            (bpf_map_lookup_elem
               (pid_stats (snd (handle_sched_switch Kb ctxb (snd (handle_sched_switch Ka ctxa M)))))
               x) =
          Some ((case bpf_map_lookup_elem (pid_stats M) x of
                   None \<Rightarrow> 0 | Some ps \<Rightarrow> cpu_time_ns ps)
                + (ktime_get_ns Ka - ts (slots (cpu_state M) (smp_processor_id Ka) 0))
                + (ktime_get_ns Kb - ts (slots (cpu_state M) (smp_processor_id Kb) 0)))"
    using cpu_time_ns_after_two by blast
  have overlap: "bpf_map_lookup_elem pf k = None \<and> length (elems pf) < max_entries pf \<longrightarrow>
          (\<forall>sched \<in> {[Cpu0, Cpu1, Cpu0, Cpu1], [Cpu0, Cpu1, Cpu1, Cpu0],
                        [Cpu1, Cpu0, Cpu0, Cpu1], [Cpu1, Cpu0, Cpu1, Cpu0]}.
             map_option faults (bpf_map_lookup_elem
               (snd (snd (interleave sched (Entered K1, Entered K2, pf)))) k) = Some 1)"
    using overlap_loses_one [OF k1 k2 nz] by blast
  from apart faults2 contention2 time2 overlap show ?thesis
    by (intro conjI)
qed

theorem upserts_apart_witness:
  "interleave [Cpu0, Cpu0, Cpu1, Cpu1]
      (Entered K_root, Entered K_t450_cpu1, page_faults initial_maps) =
     (Returned, Returned,
      snd (record_fault K_t450_cpu1 (snd (record_fault K_root (page_faults initial_maps)))))
   \<and> map_option faults
        (bpf_map_lookup_elem
           (snd (record_fault K_t450_cpu1 (snd (record_fault K_root (page_faults initial_maps)))))
           9) = Some 2
   \<and> bpf_map_lookup_elem
        (cpu_contention
           (snd (handle_sched_switch K_t450_cpu1 \<lparr>prev_pid = 7, next_pid = 5\<rparr>
                   (snd (handle_sched_switch K_t400 \<lparr>prev_pid = 7, next_pid = 5\<rparr>
                           contended_maps)))))
        (pair_key 7 5) = Some 5
   \<and> map_option cpu_time_ns
        (bpf_map_lookup_elem
           (pid_stats
              (snd (handle_sched_switch K_t450_cpu1 \<lparr>prev_pid = 5, next_pid = 7\<rparr>
                      (snd (handle_sched_switch K_t400 \<lparr>prev_pid = 5, next_pid = 7\<rparr>
                              contended_maps)))))
           5) = Some 550
   \<and> map_option faults (bpf_map_lookup_elem
        (snd (snd (interleave [Cpu1, Cpu0, Cpu1, Cpu0]
           (Entered K_root, Entered K_t450_cpu1, page_faults initial_maps)))) 9) = Some 1"
proof -
  let ?pf = "page_faults initial_maps"
  let ?c75 = "\<lparr>prev_pid = 7, next_pid = 5\<rparr>" and ?c57 = "\<lparr>prev_pid = 5, next_pid = 7\<rparr>"
  have k1: "ucast (drop_bit 32 (current_pid_tgid K_root)) = (9 :: u32)"
    by (simp add: K_root_def)
  have k2: "ucast (drop_bit 32 (current_pid_tgid K_t450_cpu1)) = (9 :: u32)"
    by (simp add: K_t450_cpu1_def)
  have nz: "(9 :: u32) \<noteq> 0"
    by simp
  note w = upserts_apart_keep_every_increment [OF k1 k2 nz, of ?pf]
  have absent: "bpf_map_lookup_elem ?pf 9 = None"
    by (simp add: initial_maps_def bpf_map_lookup_elem_def)
  have room: "length (elems ?pf) < max_entries ?pf"
    by (simp add: initial_maps_def)
  have slot: "pa_max_entries (cpu_state contended_maps) = 1"
    by (simp add: contended_maps_def)
  have cnt: "bpf_map_lookup_elem (cpu_contention contended_maps) (pair_key 7 5) = Some 3"
    by (simp add: contended_maps_def bpf_map_lookup_elem_def pair_key_def)
  have st: "slots (cpu_state contended_maps) (smp_processor_id K_t400) 0 = \<lparr>pid = 5, ts = 150\<rparr>"
    "slots (cpu_state contended_maps) (smp_processor_id K_t450_cpu1) 0 = \<lparr>pid = 5, ts = 150\<rparr>"
    by (simp_all add: contended_maps_def)
  have cpus: "smp_processor_id K_t400 \<noteq> smp_processor_id K_t450_cpu1"
    by (simp add: K_t400_def K_t450_cpu1_def)
  have times: "ktime_get_ns K_t400 = 400" "ktime_get_ns K_t450_cpu1 = 450"
    by (simp_all add: K_t400_def K_t450_cpu1_def)
  have stats: "bpf_map_lookup_elem (pid_stats contended_maps) 5 = None"
    "length (elems (pid_stats contended_maps)) < max_entries (pid_stats contended_maps)"
    by (simp_all add: contended_maps_def bpf_map_lookup_elem_def)
  have 1: "interleave [Cpu0, Cpu0, Cpu1, Cpu1] (Entered K_root, Entered K_t450_cpu1, ?pf) =
     (Returned, Returned, snd (record_fault K_t450_cpu1 (snd (record_fault K_root ?pf))))"
    by (rule w [THEN conjunct1])
  have 2: "map_option faults
        (bpf_map_lookup_elem (snd (record_fault K_t450_cpu1 (snd (record_fault K_root ?pf)))) 9) =
        Some 2"
    using w [THEN conjunct2, THEN conjunct2, THEN conjunct1] absent room by simp
  have 3: "bpf_map_lookup_elem
        (cpu_contention
           (snd (handle_sched_switch K_t450_cpu1 ?c75 (snd (handle_sched_switch K_t400 ?c75
                           contended_maps)))))
        (pair_key 7 5) = Some 5"
    using w [THEN conjunct2, THEN conjunct2, THEN conjunct2, THEN conjunct1, rule_format,
             of contended_maps ?c75 K_t450_cpu1 K_t400] slot cnt
    by simp
  have 4: "map_option cpu_time_ns
        (bpf_map_lookup_elem
           (pid_stats
              (snd (handle_sched_switch K_t450_cpu1 ?c57 (snd (handle_sched_switch K_t400 ?c57
                              contended_maps)))))
           5) = Some 550"
    using w [THEN conjunct2, THEN conjunct2, THEN conjunct2, THEN conjunct2, THEN conjunct1,
             rule_format, of contended_maps K_t400 K_t450_cpu1 5 ?c57 ?c57] slot cpus st stats times
    by simp
  have 5: "map_option faults (bpf_map_lookup_elem
        (snd (snd (interleave [Cpu1, Cpu0, Cpu1, Cpu0]
           (Entered K_root, Entered K_t450_cpu1, ?pf)))) 9) = Some 1"
    using w [THEN conjunct2, THEN conjunct2, THEN conjunct2, THEN conjunct2, THEN conjunct2]
      absent room
    by blast
  from 1 2 3 4 5 show ?thesis
    by (intro conjI)
qed

end
